theory Spec2Isabelle
  imports Complex_Main
begin

section \<open>Data model (src/lib/db/schema.ts, src/lib/scheduling/engine.ts)\<close>

text \<open>
  JavaScript numbers are modelled by their mathematical values: integer columns of the
  database (\<open>estimatedMinutes\<close>, \<open>difficulty\<close>, \<open>priority\<close>, \<open>sortOrder\<close>,
  \<open>taskDifficulty\<close>, \<open>energyRating\<close>) as \<open>int\<close>, every other number as \<open>real\<close>.
  A decimal literal such as \<open>5.2\<close> or \<open>0.3\<close> stands for the rational it denotes;
  the rounding error of IEEE doubles is not modelled.
\<close>

datatype task_status = Pending | Scheduled | In_progress | Completed | Skipped

record Task =
  task_id :: string
  milestoneId :: "string option"
  projectId :: string
  title :: string
  description :: "string option"
  estimatedMinutes :: int
  actualMinutes :: "int option"
  difficulty :: int
  priority :: int
  status :: task_status
  aiGenerated :: bool
  sortOrder :: int
  createdAt :: int

datatype difficulty_rating = Too_easy | Just_right | Too_hard

record FeedbackWithDifficulty =
  difficultyRating :: "difficulty_rating option"
  taskDifficulty :: int
  flowRating :: "int option"
  completedAt :: int

record DailyPlanSummary =
  date :: string
  hoursRequested_plan :: "int option"
  energyRating :: "int option"
  eodReviewCompleted :: bool

record CalibrationProfile =
  skillLevel :: real
  idealDifficulty :: real
  confidence :: real
  dataPoints :: nat
  energyByDay :: "nat \<rightharpoonup> real"
  avgTasksPerDay :: real
  avgHoursPerDay :: real
  currentStreak :: nat

section \<open>Calibration engine (challenge-skill module)\<close>

text \<open>\<open>Math.round\<close>: the nearest integer, halves rounded towards plus infinity.\<close>

definition math_round :: "real \<Rightarrow> int" where
  "math_round x = \<lfloor>x + 1 / 2\<rfloor>"

text \<open>\<open>Math.round(x * 10) / 10\<close> and \<open>Math.round(x * 100) / 100\<close>.\<close>

definition round1 :: "real \<Rightarrow> real" where
  "round1 x = real_of_int (math_round (x * 10)) / 10"

definition round2 :: "real \<Rightarrow> real" where
  "round2 x = real_of_int (math_round (x * 100)) / 100"

text \<open>
  \<open>xs.reduce((sum, f) => sum + f.taskDifficulty, 0) / xs.length\<close>, used only on
  non-empty groups.
\<close>

definition difficultyAvg :: "FeedbackWithDifficulty list \<Rightarrow> real" where
  "difficultyAvg xs =
     real_of_int (foldl (\<lambda>sum f. sum + taskDifficulty f) 0 xs) / real (length xs)"

text \<open>
  The skill level before clamping: the median branch reads the sorted difficulties at
  \<open>mid - 1\<close> and \<open>mid\<close>; both indices are in range because the group is non-empty.
\<close>

definition rawSkillLevel :: "FeedbackWithDifficulty list \<Rightarrow> real" where
  "rawSkillLevel feedbackEntries =
     (let justRightTasks = filter (\<lambda>f. difficultyRating f = Some Just_right) feedbackEntries;
          tooEasyTasks = filter (\<lambda>f. difficultyRating f = Some Too_easy) feedbackEntries;
          tooHardTasks = filter (\<lambda>f. difficultyRating f = Some Too_hard) feedbackEntries
      in if length justRightTasks > 0 then
           (let difficulties = sort (map taskDifficulty justRightTasks);
                mid = length difficulties div 2
            in if length difficulties mod 2 = 0
               then real_of_int (difficulties ! (mid - 1) + difficulties ! mid) / 2
               else real_of_int (difficulties ! mid))
         else
           (let easyAvg = (if length tooEasyTasks > 0 then difficultyAvg tooEasyTasks else 3);
                hardAvg = (if length tooHardTasks > 0 then difficultyAvg tooHardTasks else 7)
            in (easyAvg + hardAvg) / 2))"

text \<open>
  The accumulation of energy ratings per weekday. \<open>new Date(plan.date).getDay()\<close> belongs
  to the platform, so the weekday of a date string is the parameter \<open>getDay\<close>. A plan
  counts when its rating is truthy (neither null nor 0) and its date is a non-empty string.
\<close>

definition energyStep ::
  "(string \<Rightarrow> nat) \<Rightarrow> (nat \<rightharpoonup> real \<times> nat) \<Rightarrow> DailyPlanSummary \<Rightarrow> (nat \<rightharpoonup> real \<times> nat)" where
  "energyStep getDay acc plan =
     (case energyRating plan of
        None \<Rightarrow> acc
      | Some r \<Rightarrow>
          if r \<noteq> 0 \<and> date plan \<noteq> [] then
            (let dayOfWeek = getDay (date plan);
                 cur = (case acc dayOfWeek of None \<Rightarrow> (0, 0) | Some d \<Rightarrow> d)
             in acc(dayOfWeek \<mapsto> (fst cur + real_of_int r, snd cur + 1)))
          else acc)"

definition energyByDayAvg ::
  "(string \<Rightarrow> nat) \<Rightarrow> DailyPlanSummary list \<Rightarrow> (nat \<rightharpoonup> real)" where
  "energyByDayAvg getDay dailyPlanData =
     (\<lambda>day. map_option (\<lambda>(total, count). round1 (total / real count))
               (foldl (energyStep getDay) Map.empty dailyPlanData day))"

definition avgHours :: "DailyPlanSummary list \<Rightarrow> real" where
  "avgHours dailyPlanData =
     (let daysWithPlans =
            filter (\<lambda>p. case hoursRequested_plan p of None \<Rightarrow> False | Some h \<Rightarrow> h \<noteq> 0)
              dailyPlanData
      in if length daysWithPlans > 0 then
           real_of_int
             (foldl (\<lambda>sum p. sum + (case hoursRequested_plan p of None \<Rightarrow> 0 | Some h \<Rightarrow> h))
                0 daysWithPlans)
           / real (length daysWithPlans)
         else 0)"

text \<open>
  The streak loop walks the plans with a completed review, newest first, and stops at the
  first gap above 1.5 days. \<open>new Date(d).getTime()\<close> (milliseconds) is the parameter
  \<open>getTime\<close>.
\<close>

fun streakWalk :: "(string \<Rightarrow> int) \<Rightarrow> DailyPlanSummary \<Rightarrow> DailyPlanSummary list \<Rightarrow> nat \<Rightarrow> nat" where
  "streakWalk getTime prevPlan [] streak = streak"
| "streakWalk getTime prevPlan (currPlan # rest) streak =
     (let diffDays = real_of_int (getTime (date prevPlan) - getTime (date currPlan))
                       / (1000 * 60 * 60 * 24)
      in if diffDays \<le> 1.5 then streakWalk getTime currPlan rest (streak + 1) else streak)"

definition streakOf :: "(string \<Rightarrow> int) \<Rightarrow> DailyPlanSummary list \<Rightarrow> nat" where
  "streakOf getTime dailyPlanData =
     (let sortedPlans =
            sort_key (\<lambda>p. - getTime (date p)) (filter eodReviewCompleted dailyPlanData)
      in case sortedPlans of [] \<Rightarrow> 0 | p # rest \<Rightarrow> streakWalk getTime p rest 1)"

definition computeCalibrationProfile ::
  "(string \<Rightarrow> nat) \<Rightarrow> (string \<Rightarrow> int) \<Rightarrow> FeedbackWithDifficulty list \<Rightarrow>
   DailyPlanSummary list \<Rightarrow> CalibrationProfile" where
  "computeCalibrationProfile getDay getTime feedbackEntries dailyPlanData =
     (if length feedbackEntries < 3 then
        \<lparr> skillLevel = 5, idealDifficulty = 5.2, confidence = 0,
          dataPoints = length feedbackEntries, energyByDay = Map.empty,
          avgTasksPerDay = 0, avgHoursPerDay = 0, currentStreak = 0 \<rparr>
      else
        (let skill = max 1 (min 10 (rawSkillLevel feedbackEntries));
             ideal = min 10 (skill * 1.04);
             conf = min 1 (real (length feedbackEntries) / 33)
         in \<lparr> skillLevel = round1 skill, idealDifficulty = round1 ideal,
              confidence = round2 conf, dataPoints = length feedbackEntries,
              energyByDay = energyByDayAvg getDay dailyPlanData,
              avgTasksPerDay = 0, avgHoursPerDay = round1 (avgHours dailyPlanData),
              currentStreak = streakOf getTime dailyPlanData \<rparr>))"

definition defaultScore :: "real \<Rightarrow> real" where
  "defaultScore taskDiff = max 0 (1 - \<bar>taskDiff - 5\<bar> * 0.15)"

text \<open>The bell curve of \<open>calculateChallengeSkillScore\<close>, with \<open>sigma = 2\<close>.\<close>

definition gaussianScore :: "real \<Rightarrow> CalibrationProfile \<Rightarrow> real" where
  "gaussianScore taskDiff profile =
     (let delta = \<bar>taskDiff - idealDifficulty profile\<bar>; sigma = 2
      in exp (- (delta * delta) / (2 * sigma * sigma)))"

definition calculateChallengeSkillScore :: "real \<Rightarrow> CalibrationProfile \<Rightarrow> real" where
  "calculateChallengeSkillScore taskDiff profile =
     gaussianScore taskDiff profile * confidence profile
     + defaultScore taskDiff * (1 - confidence profile)"

section \<open>Block duration (engine module)\<close>

definition isActive :: "Task \<Rightarrow> bool" where
  "isActive t \<longleftrightarrow> status t = Pending \<or> status t = Scheduled"

text \<open>
  \<open>autoDecideBlockDuration\<close>. The weekday of the wall clock (\<open>new Date().getDay()\<close>) is
  the parameter \<open>today\<close>. \<open>todayEnergy && ...\<close> is false for a missing entry and for 0.
\<close>

definition autoDecideBlockDuration ::
  "nat \<Rightarrow> CalibrationProfile option \<Rightarrow> Task list \<Rightarrow> int" where
  "autoDecideBlockDuration today calibration pendingTasks =
     (case calibration of
        None \<Rightarrow> 120
      | Some c \<Rightarrow>
          if confidence c = 0 then 120
          else if confidence c < 0.3 then 90
          else
            (let avgHours = avgHoursPerDay c
             in if confidence c < 0.7 then
                  (if avgHours > 0 \<and> avgHours < 3 then 60
                   else if avgHours \<ge> 3 \<and> avgHours \<le> 5 then 90
                   else 120)
                else
                  (let activeTasks = filter isActive pendingTasks;
                       avgEstimate =
                         real_of_int (foldl (\<lambda>sum t. sum + estimatedMinutes t) 0 activeTasks)
                         / real (length activeTasks)
                   in if length activeTasks > 0 \<and> avgEstimate < 25 then 60
                      else if length activeTasks > 0 \<and> avgEstimate < 50 then 90
                      else
                        (let todayEnergy = energyByDay c today
                         in if (case todayEnergy of None \<Rightarrow> False
                                | Some e \<Rightarrow> e \<noteq> 0 \<and> e \<le> 2) then 60
                            else if (case todayEnergy of None \<Rightarrow> False
                                     | Some e \<Rightarrow> e \<noteq> 0 \<and> e \<le> 3) then 90
                            else if avgHours > 0 \<and> avgHours < 4 then 90
                            else 120))))"

definition resolveBlockDuration ::
  "nat \<Rightarrow> string \<Rightarrow> int \<Rightarrow> CalibrationProfile option \<Rightarrow> Task list \<Rightarrow> int" where
  "resolveBlockDuration today mode customDuration calibration pendingTasks =
     (if mode = ''60'' then 60
      else if mode = ''90'' then 90
      else if mode = ''120'' then 120
      else if mode = ''custom'' then customDuration
      else if mode = ''auto'' then autoDecideBlockDuration today calibration pendingTasks
      else if customDuration \<noteq> 0 then customDuration else 120)"

section \<open>Schedule generator (engine module)\<close>

datatype block_type = Deep_work | Shallow_work | Break | Buffer

record ScheduledTask =
  task :: Task
  sortOrder_blk :: nat

record ScheduledBlock =
  blockNumber :: nat
  startTime :: string
  endTime :: string
  blockType :: block_type
  tasks :: "ScheduledTask list"
  totalMinutes :: int

record ScheduleConfig =
  startTime_cfg :: string
  hoursRequested :: real
  blockDurationMinutes :: int
  breakDurationMinutes :: int
  calibration_cfg :: "CalibrationProfile option"

text \<open>The objects \<open>{ task, score }\<close> built by \<open>generateDailySchedule\<close>.\<close>

record ScoredTask =
  task_sc :: Task
  score :: real

subsection \<open>Time helpers\<close>

text \<open>
  A time is a number of minutes since midnight, or \<open>None\<close> for NaN. \<open>Number\<close> is
  modelled on strings of decimal digits (the empty string is 0), which is what a
  \<open>HH:MM\<close> value splits into; every other string is taken to NaN here.
\<close>

fun splitOn :: "char \<Rightarrow> string \<Rightarrow> string \<Rightarrow> string list" where
  "splitOn c acc [] = [rev acc]"
| "splitOn c acc (x # xs) = (if x = c then rev acc # splitOn c [] xs else splitOn c (x # acc) xs)"

definition digitValue :: "char \<Rightarrow> nat option" where
  "digitValue c = map_of (zip ''0123456789'' [0, 1, 2, 3, 4, 5, 6, 7, 8, 9]) c"

fun toNumber :: "int \<Rightarrow> string \<Rightarrow> int option" where
  "toNumber acc [] = Some acc"
| "toNumber acc (c # cs) =
     (case digitValue c of None \<Rightarrow> None | Some d \<Rightarrow> toNumber (acc * 10 + int d) cs)"

text \<open>
  \<open>const [hours, minutes] = timeStr.split(":").map(Number)\<close>: a missing second part is
  \<open>undefined\<close>, which makes the sum NaN.
\<close>

definition parseTime :: "string \<Rightarrow> int option" where
  "parseTime timeStr =
     (case map (toNumber 0) (splitOn CHR '':'' [] timeStr) of
        Some hours # Some minutes # _ \<Rightarrow> Some (hours * 60 + minutes)
      | _ \<Rightarrow> None)"

text \<open>The remainder operator \<open>%\<close> of JavaScript takes the sign of the dividend.\<close>

definition jsRem :: "int \<Rightarrow> int \<Rightarrow> int" where
  "jsRem a b = sgn a * (\<bar>a\<bar> mod \<bar>b\<bar>)"

fun natToString :: "nat \<Rightarrow> string" where
  "natToString n =
     (if n < 10 then [''0123456789'' ! n]
      else natToString (n div 10) @ [''0123456789'' ! (n mod 10)])"

definition intToString :: "int \<Rightarrow> string" where
  "intToString k = (if k < 0 then CHR ''-'' # natToString (nat (- k)) else natToString (nat k))"

definition padStart2 :: "string \<Rightarrow> string" where
  "padStart2 s = replicate (2 - length s) CHR ''0'' @ s"

definition formatTime :: "int option \<Rightarrow> string" where
  "formatTime minutes =
     (case minutes of
        None \<Rightarrow> ''NaN:NaN''
      | Some m \<Rightarrow>
          (let h = jsRem \<lfloor>real_of_int m / 60\<rfloor> 24; mm = jsRem m 60
           in padStart2 (intToString h) @ '':'' @ padStart2 (intToString mm)))"

definition addMinutes :: "int option \<Rightarrow> int \<Rightarrow> int option" where
  "addMinutes t d = map_option (\<lambda>m. m + d) t"

subsection \<open>Scoring\<close>

definition calculateTaskScore :: "Task \<Rightarrow> CalibrationProfile option \<Rightarrow> real" where
  "calculateTaskScore t calibration =
     (let priorityScore = real_of_int (priority t) / 5;
          urgencyScore = 0.5;
          fallback =
            (let ideal = 5; difficultyDelta = \<bar>real_of_int (difficulty t) - ideal\<bar>
             in max 0 (1 - difficultyDelta * 0.15));
          challengeScore =
            (case calibration of
               None \<Rightarrow> fallback
             | Some c \<Rightarrow>
                 if confidence c > 0
                 then calculateChallengeSkillScore (real_of_int (difficulty t)) c
                 else fallback)
      in priorityScore * 0.3 + urgencyScore * 0.4 + challengeScore * 0.2
         + (1 - real_of_int (sortOrder t) * 0.01) * 0.1)"

text \<open>
  \<open>scoredTasks\<close>: the active tasks with their scores, highest score first.
  \<open>Array.prototype.sort\<close> is stable, as \<open>sort_key\<close> is.
\<close>

definition scoredTasks :: "Task list \<Rightarrow> CalibrationProfile option \<Rightarrow> ScoredTask list" where
  "scoredTasks pendingTasks calibration =
     sort_key (\<lambda>s. - score s)
       (map (\<lambda>t. \<lparr> task_sc = t, score = calculateTaskScore t calibration \<rparr>)
          (filter isActive pendingTasks))"

subsection \<open>Number of blocks\<close>

text \<open>
  \<open>effectiveBlocks\<close> is a JavaScript number: when \<open>blockWithBreak\<close> is 0 the division
  gives plus infinity, minus infinity (which \<open>Math.max(1, _)\<close> turns into 1) or NaN.
\<close>

datatype block_bound = Blocks int | Unbounded | NotANumber

definition effectiveBlocks :: "ScheduleConfig \<Rightarrow> block_bound" where
  "effectiveBlocks config =
     (let totalMins = hoursRequested config * 60;
          blockWithBreak = blockDurationMinutes config + breakDurationMinutes config;
          bufferMinutes = \<lfloor>totalMins * 0.1\<rfloor>;
          effectiveMinutes = totalMins - real_of_int bufferMinutes
      in if blockWithBreak = 0 then
           (if effectiveMinutes > 0 then Unbounded
            else if effectiveMinutes < 0 then Blocks 1
            else NotANumber)
         else Blocks (max 1 \<lfloor>effectiveMinutes / real_of_int blockWithBreak\<rfloor>))"

text \<open>The tests \<open>i < effectiveBlocks\<close> and \<open>i === effectiveBlocks - 1\<close>.\<close>

fun belowBound :: "nat \<Rightarrow> block_bound \<Rightarrow> bool" where
  "belowBound i (Blocks n) = (int i < n)"
| "belowBound i Unbounded = True"
| "belowBound i NotANumber = False"

fun isLast :: "nat \<Rightarrow> block_bound \<Rightarrow> bool" where
  "isLast i (Blocks n) = (int i = n - 1)"
| "isLast i Unbounded = False"
| "isLast i NotANumber = False"

subsection \<open>Filling one block\<close>

text \<open>
  The inner loop over the candidates: a candidate is taken when it still fits, and the
  loop breaks once the block is 80 percent full.
\<close>

fun selectForBlock ::
  "int \<Rightarrow> ScoredTask list \<Rightarrow> ScoredTask list \<Rightarrow> int \<Rightarrow> ScoredTask list \<times> int" where
  "selectForBlock blockDuration [] selected filled = (selected, filled)"
| "selectForBlock blockDuration (candidate # rest) selected filled =
     (if filled + estimatedMinutes (task_sc candidate) \<le> blockDuration then
        (let selected' = selected @ [candidate];
             filled' = filled + estimatedMinutes (task_sc candidate)
         in if real_of_int filled' \<ge> real_of_int blockDuration * 0.8
            then (selected', filled')
            else selectForBlock blockDuration rest selected' filled')
      else selectForBlock blockDuration rest selected filled)"

definition byDifficulty :: "ScoredTask list \<Rightarrow> ScoredTask list" where
  "byDifficulty xs = sort_key (\<lambda>s. difficulty (task_sc s)) xs"

text \<open>
  One iteration of the outer loop, up to the test for an empty block: the tasks left for
  later blocks, the tasks of this block in their order, and the minutes filled.
\<close>

definition fillBlock ::
  "int \<Rightarrow> bool \<Rightarrow> ScoredTask list \<Rightarrow> ScoredTask list \<times> ScheduledTask list \<times> int" where
  "fillBlock blockDuration isLastBlock remainingTasks =
     (let candidateTasks = (if isLastBlock then byDifficulty remainingTasks else remainingTasks);
          sel = selectForBlock blockDuration candidateTasks [] 0;
          selectedForBlock = fst sel;
          blockMinutesFilled = snd sel;
          selectedIds = set (map (\<lambda>s. task_id (task_sc s)) selectedForBlock);
          remainingTasks' = filter (\<lambda>t. task_id (task_sc t) \<notin> selectedIds) remainingTasks;
          sortedSelected = byDifficulty selectedForBlock;
          blockTasks =
            map (\<lambda>(st, idx). \<lparr> task = task_sc st, sortOrder_blk = idx \<rparr>)
              (zip sortedSelected [0 ..< length sortedSelected])
      in (remainingTasks', blockTasks, blockMinutesFilled))"

subsection \<open>The outer loop\<close>

text \<open>
  The loop runs while \<open>i < effectiveBlocks\<close> and tasks remain. With an unbounded number
  of blocks and a task that never fits it does not end, so its result is an option.
\<close>

partial_function (option) scheduleLoop ::
  "block_bound \<Rightarrow> int \<Rightarrow> int \<Rightarrow> nat \<Rightarrow> ScoredTask list \<Rightarrow> int option \<Rightarrow>
   ScheduledBlock list \<Rightarrow> ScheduledBlock list option" where
  "scheduleLoop bound blockDuration breakDuration i remainingTasks currentTime blocks =
     (if belowBound i bound \<and> length remainingTasks > 0 then
        (let isLastBlock = isLast i bound;
             blockTypeNow = (if isLastBlock then Shallow_work else Deep_work);
             filled = fillBlock blockDuration isLastBlock remainingTasks;
             remainingTasks' = fst filled;
             blockTasks = fst (snd filled);
             blockMinutesFilled = snd (snd filled)
         in if length blockTasks = 0 then
              scheduleLoop bound blockDuration breakDuration (i + 1) remainingTasks'
                currentTime blocks
            else
              scheduleLoop bound blockDuration breakDuration (i + 1) remainingTasks'
                (addMinutes (addMinutes currentTime blockDuration) breakDuration)
                (blocks @
                 [\<lparr> blockNumber = i + 1,
                    startTime = formatTime currentTime,
                    endTime = formatTime (addMinutes currentTime blockDuration),
                    blockType = blockTypeNow,
                    tasks = blockTasks,
                    totalMinutes = blockMinutesFilled \<rparr>]))
      else Some blocks)"

text \<open>
  \<open>generateDailySchedule\<close>; \<open>None\<close> means that the call does not return. The unused
  local \<open>numBlocks\<close> of the source is left out.
\<close>

definition generateDailySchedule ::
  "Task list \<Rightarrow> ScheduleConfig \<Rightarrow> ScheduledBlock list option" where
  "generateDailySchedule pendingTasks config =
     (if length pendingTasks = 0 then Some []
      else scheduleLoop (effectiveBlocks config) (blockDurationMinutes config)
             (breakDurationMinutes config) 0
             (scoredTasks pendingTasks (calibration_cfg config))
             (parseTime (startTime_cfg config)) [])"

section \<open>The engine on arrays in a store\<close>

text \<open>
  The engine assigns to no property of a task, a feedback entry or a plan summary. What it
  changes in place are arrays: \<open>sort\<close> orders the array it is called on and \<open>push\<close>
  appends to it, while \<open>filter\<close>, \<open>map\<close> and the spread \<open>[...xs]\<close> build a new array.
  To say which arrays a call changes, arrays live in a store and are named by references;
  their elements are values. The arrays that make up the result (\<open>blocks\<close>,
  \<open>blockTasks\<close>) are new and are returned as values.
\<close>

type_synonym ref = nat

record 'a arrays =
  cells :: "ref \<Rightarrow> 'a list"
  fresh :: ref

text \<open>A new array (an array literal, or the result of \<open>filter\<close>, \<open>map\<close> or a spread).\<close>

definition newArray :: "'a list \<Rightarrow> 'a arrays \<Rightarrow> ref \<times> 'a arrays" where
  "newArray xs h = (fresh h, h\<lparr>cells := (cells h)(fresh h := xs), fresh := Suc (fresh h)\<rparr>)"

text \<open>\<open>Array.prototype.sort\<close> and \<open>push\<close> write to the array they are called on.\<close>

definition sortInPlace :: "('a \<Rightarrow> 'k::linorder) \<Rightarrow> ref \<Rightarrow> 'a arrays \<Rightarrow> 'a arrays" where
  "sortInPlace key r h = h\<lparr>cells := (cells h)(r := sort_key key (cells h r))\<rparr>"

definition pushTo :: "ref \<Rightarrow> 'a \<Rightarrow> 'a arrays \<Rightarrow> 'a arrays" where
  "pushTo r x h = h\<lparr>cells := (cells h)(r := cells h r @ [x])\<rparr>"

text \<open>\<open>pendingTasks.filter(...).map(...).sort(...)\<close>: the array sorted is the mapped one.\<close>

definition scoredTasks_st ::
  "ref \<Rightarrow> CalibrationProfile option \<Rightarrow> Task arrays \<Rightarrow> ScoredTask arrays \<Rightarrow>
   ref \<times> Task arrays \<times> ScoredTask arrays" where
  "scoredTasks_st pendingTasks calibration th sh =
     (case newArray (filter isActive (cells th pendingTasks)) th of
        (filtered, th1) \<Rightarrow>
          (case newArray
                  (map (\<lambda>t. \<lparr> task_sc = t, score = calculateTaskScore t calibration \<rparr>)
                     (cells th1 filtered)) sh of
             (mapped, sh1) \<Rightarrow> (mapped, th1, sortInPlace (\<lambda>s. - score s) mapped sh1)))"

text \<open>
  The inner loop pushes onto \<open>selectedForBlock\<close>. The candidates are the elements that
  \<open>candidateTasks\<close> has when the loop starts; \<open>selectedForBlock\<close> is another array.
\<close>

fun selectInto ::
  "int \<Rightarrow> ScoredTask list \<Rightarrow> ref \<Rightarrow> ScoredTask arrays \<Rightarrow> int \<Rightarrow> ScoredTask arrays \<times> int" where
  "selectInto blockDuration [] selectedForBlock sh filled = (sh, filled)"
| "selectInto blockDuration (candidate # rest) selectedForBlock sh filled =
     (if filled + estimatedMinutes (task_sc candidate) \<le> blockDuration then
        (let sh' = pushTo selectedForBlock candidate sh;
             filled' = filled + estimatedMinutes (task_sc candidate)
         in if real_of_int filled' \<ge> real_of_int blockDuration * 0.8
            then (sh', filled')
            else selectInto blockDuration rest selectedForBlock sh' filled')
      else selectInto blockDuration rest selectedForBlock sh filled)"

text \<open>
  One iteration of the outer loop. In the last block \<open>candidateTasks\<close> is a sorted copy,
  otherwise it is the array \<open>remainingTasks\<close> itself.
\<close>

definition fillBlock_st ::
  "int \<Rightarrow> bool \<Rightarrow> ref \<Rightarrow> ScoredTask arrays \<Rightarrow>
   ref \<times> ScheduledTask list \<times> int \<times> ScoredTask arrays" where
  "fillBlock_st blockDuration isLastBlock remainingTasks sh =
     (case (if isLastBlock
            then (case newArray (cells sh remainingTasks) sh of
                    (copy, h) \<Rightarrow> (copy, sortInPlace (\<lambda>s. difficulty (task_sc s)) copy h))
            else (remainingTasks, sh)) of
        (candidateTasks, sh1) \<Rightarrow>
     (case newArray [] sh1 of
        (selectedForBlock, sh2) \<Rightarrow>
     (case selectInto blockDuration (cells sh2 candidateTasks) selectedForBlock sh2 0 of
        (sh3, blockMinutesFilled) \<Rightarrow>
     (let selectedIds = set (map (\<lambda>s. task_id (task_sc s)) (cells sh3 selectedForBlock))
      in case newArray
                (filter (\<lambda>t. task_id (task_sc t) \<notin> selectedIds) (cells sh3 remainingTasks))
                sh3 of
        (remainingTasks', sh4) \<Rightarrow>
     (let sh5 = sortInPlace (\<lambda>s. difficulty (task_sc s)) selectedForBlock sh4;
          blockTasks =
            map (\<lambda>(st, idx). \<lparr> task = task_sc st, sortOrder_blk = idx \<rparr>)
              (zip (cells sh5 selectedForBlock) [0 ..< length (cells sh5 selectedForBlock)])
      in (remainingTasks', blockTasks, blockMinutesFilled, sh5))))))"

partial_function (option) scheduleLoop_st ::
  "block_bound \<Rightarrow> int \<Rightarrow> int \<Rightarrow> nat \<Rightarrow> ref \<Rightarrow> int option \<Rightarrow>
   ScheduledBlock list \<Rightarrow> ScoredTask arrays \<Rightarrow> (ScheduledBlock list \<times> ScoredTask arrays) option" where
  "scheduleLoop_st bound blockDuration breakDuration i remainingTasks currentTime blocks sh =
     (if belowBound i bound \<and> length (cells sh remainingTasks) > 0 then
        (let isLastBlock = isLast i bound;
             blockTypeNow = (if isLastBlock then Shallow_work else Deep_work);
             filled = fillBlock_st blockDuration isLastBlock remainingTasks sh;
             remainingTasks' = fst filled;
             blockTasks = fst (snd filled);
             blockMinutesFilled = fst (snd (snd filled));
             sh' = snd (snd (snd filled))
         in if length blockTasks = 0 then
              scheduleLoop_st bound blockDuration breakDuration (i + 1) remainingTasks'
                currentTime blocks sh'
            else
              scheduleLoop_st bound blockDuration breakDuration (i + 1) remainingTasks'
                (addMinutes (addMinutes currentTime blockDuration) breakDuration)
                (blocks @
                 [\<lparr> blockNumber = i + 1,
                    startTime = formatTime currentTime,
                    endTime = formatTime (addMinutes currentTime blockDuration),
                    blockType = blockTypeNow,
                    tasks = blockTasks,
                    totalMinutes = blockMinutesFilled \<rparr>])
                sh')
      else Some (blocks, sh))"

text \<open>\<open>let remainingTasks = [...scoredTasks]\<close> is a copy.\<close>

definition generateDailySchedule_st ::
  "ref \<Rightarrow> ScheduleConfig \<Rightarrow> Task arrays \<Rightarrow> ScoredTask arrays \<Rightarrow>
   (ScheduledBlock list \<times> Task arrays \<times> ScoredTask arrays) option" where
  "generateDailySchedule_st pendingTasks config th sh =
     (if length (cells th pendingTasks) = 0 then Some ([], th, sh)
      else
        (case scoredTasks_st pendingTasks (calibration_cfg config) th sh of
           (scored, th1, sh1) \<Rightarrow>
             (case newArray (cells sh1 scored) sh1 of
                (remainingTasks, sh2) \<Rightarrow>
                  map_option (\<lambda>(blocks, sh3). (blocks, th1, sh3))
                    (scheduleLoop_st (effectiveBlocks config) (blockDurationMinutes config)
                       (breakDurationMinutes config) 0 remainingTasks
                       (parseTime (startTime_cfg config)) [] sh2))))"

text \<open>
  \<open>computeCalibrationProfile\<close> on arrays in a store, in the three parts that touch
  arrays: the skill level, the average hours and the streak.
\<close>

definition rawSkillLevel_st ::
  "ref \<Rightarrow> FeedbackWithDifficulty arrays \<Rightarrow> int arrays \<Rightarrow>
   real \<times> FeedbackWithDifficulty arrays \<times> int arrays" where
  "rawSkillLevel_st feedbackEntries fh nh =
     (case newArray (filter (\<lambda>f. difficultyRating f = Some Just_right)
                      (cells fh feedbackEntries)) fh of
        (justRightTasks, fh1) \<Rightarrow>
     (case newArray (filter (\<lambda>f. difficultyRating f = Some Too_easy)
                      (cells fh1 feedbackEntries)) fh1 of
        (tooEasyTasks, fh2) \<Rightarrow>
     (case newArray (filter (\<lambda>f. difficultyRating f = Some Too_hard)
                      (cells fh2 feedbackEntries)) fh2 of
        (tooHardTasks, fh3) \<Rightarrow>
          if length (cells fh3 justRightTasks) > 0 then
            (case newArray (map taskDifficulty (cells fh3 justRightTasks)) nh of
               (mapped, nh1) \<Rightarrow>
                 (let nh2 = sortInPlace (\<lambda>x. x) mapped nh1;
                      difficulties = cells nh2 mapped;
                      mid = length difficulties div 2
                  in (if length difficulties mod 2 = 0
                      then real_of_int (difficulties ! (mid - 1) + difficulties ! mid) / 2
                      else real_of_int (difficulties ! mid), fh3, nh2)))
          else
            (let easyAvg = (if length (cells fh3 tooEasyTasks) > 0
                            then difficultyAvg (cells fh3 tooEasyTasks) else 3);
                 hardAvg = (if length (cells fh3 tooHardTasks) > 0
                            then difficultyAvg (cells fh3 tooHardTasks) else 7)
             in ((easyAvg + hardAvg) / 2, fh3, nh)))))"

definition avgHours_st :: "ref \<Rightarrow> DailyPlanSummary arrays \<Rightarrow> real \<times> DailyPlanSummary arrays" where
  "avgHours_st dailyPlanData ph =
     (case newArray
             (filter (\<lambda>p. case hoursRequested_plan p of None \<Rightarrow> False | Some h \<Rightarrow> h \<noteq> 0)
                (cells ph dailyPlanData)) ph of
        (daysWithPlans, ph1) \<Rightarrow>
          (if length (cells ph1 daysWithPlans) > 0 then
             real_of_int
               (foldl (\<lambda>sum p. sum + (case hoursRequested_plan p of None \<Rightarrow> 0 | Some h \<Rightarrow> h))
                  0 (cells ph1 daysWithPlans))
             / real (length (cells ph1 daysWithPlans))
           else 0, ph1))"

definition streakOf_st ::
  "(string \<Rightarrow> int) \<Rightarrow> ref \<Rightarrow> DailyPlanSummary arrays \<Rightarrow> nat \<times> DailyPlanSummary arrays" where
  "streakOf_st getTime dailyPlanData ph =
     (case newArray (cells ph dailyPlanData) ph of
        (spread, ph1) \<Rightarrow>
     (case newArray (filter eodReviewCompleted (cells ph1 spread)) ph1 of
        (reviewed, ph2) \<Rightarrow>
     (let ph3 = sortInPlace (\<lambda>p. - getTime (date p)) reviewed ph2;
          sortedPlans = cells ph3 reviewed
      in (case sortedPlans of [] \<Rightarrow> 0 | p # rest \<Rightarrow> streakWalk getTime p rest 1, ph3))))"

definition computeCalibrationProfile_st ::
  "(string \<Rightarrow> nat) \<Rightarrow> (string \<Rightarrow> int) \<Rightarrow> ref \<Rightarrow> ref \<Rightarrow>
   FeedbackWithDifficulty arrays \<Rightarrow> int arrays \<Rightarrow> DailyPlanSummary arrays \<Rightarrow>
   CalibrationProfile \<times> FeedbackWithDifficulty arrays \<times> int arrays \<times> DailyPlanSummary arrays" where
  "computeCalibrationProfile_st getDay getTime feedbackEntries dailyPlanData fh nh ph =
     (if length (cells fh feedbackEntries) < 3 then
        (\<lparr> skillLevel = 5, idealDifficulty = 5.2, confidence = 0,
           dataPoints = length (cells fh feedbackEntries), energyByDay = Map.empty,
           avgTasksPerDay = 0, avgHoursPerDay = 0, currentStreak = 0 \<rparr>, fh, nh, ph)
      else
        (case rawSkillLevel_st feedbackEntries fh nh of
           (skillLevel0, fh', nh') \<Rightarrow>
        (let skill = max 1 (min 10 skillLevel0);
             ideal = min 10 (skill * 1.04);
             conf = min 1 (real (length (cells fh' feedbackEntries)) / 33);
             energy = energyByDayAvg getDay (cells ph dailyPlanData)
         in case avgHours_st dailyPlanData ph of
           (avgHoursPerDay0, ph1) \<Rightarrow>
        (case streakOf_st getTime dailyPlanData ph1 of
           (streak, ph2) \<Rightarrow>
             (\<lparr> skillLevel = round1 skill, idealDifficulty = round1 ideal,
                confidence = round2 conf, dataPoints = length (cells fh' feedbackEntries),
                energyByDay = energy, avgTasksPerDay = 0,
                avgHoursPerDay = round1 avgHoursPerDay0, currentStreak = streak \<rparr>,
              fh', nh', ph2)))))"

text \<open>
  \<open>keeps n h h'\<close>: the store \<open>h'\<close> has every array of \<open>h\<close> below reference \<open>n\<close> with
  the contents it has in \<open>h\<close>, and no fewer references in use.
\<close>

definition keeps :: "ref \<Rightarrow> 'a arrays \<Rightarrow> 'a arrays \<Rightarrow> bool" where
  "keeps n h h' \<longleftrightarrow> fresh h \<le> fresh h' \<and> (\<forall>r < n. cells h' r = cells h r)"

section \<open>The specification's wording of the skill level\<close>





section \<open>Example inputs\<close>

definition fb :: "difficulty_rating option \<Rightarrow> int \<Rightarrow> FeedbackWithDifficulty" where
  "fb r d = \<lparr> difficultyRating = r, taskDifficulty = d, flowRating = None, completedAt = 0 \<rparr>"

definition exProfile :: "real \<Rightarrow> real \<Rightarrow> CalibrationProfile" where
  "exProfile ideal conf =
     \<lparr> skillLevel = 5, idealDifficulty = ideal, confidence = conf, dataPoints = 10,
       energyByDay = Map.empty, avgTasksPerDay = 0, avgHoursPerDay = 0, currentStreak = 0 \<rparr>"

definition mkTask :: "string \<Rightarrow> int \<Rightarrow> int \<Rightarrow> int \<Rightarrow> task_status \<Rightarrow> int \<Rightarrow> Task" where
  "mkTask i minutes diff prio st ord =
     \<lparr> task_id = i, milestoneId = None, projectId = ''p'', title = i, description = None,
       estimatedMinutes = minutes, actualMinutes = None, difficulty = diff, priority = prio,
       status = st, aiGenerated = False, sortOrder = ord, createdAt = 0 \<rparr>"

definition exTasks :: "Task list" where
  "exTasks = [mkTask ''a'' 30 5 3 Pending 0, mkTask ''b'' 60 2 3 Pending 1,
              mkTask ''c'' 90 7 5 Pending 2, mkTask ''d'' 45 1 1 Scheduled 3,
              mkTask ''e'' 500 1 1 Pending 4, mkTask ''f'' 15 1 5 Completed 5]"

definition exConfig :: ScheduleConfig where
  "exConfig = \<lparr> startTime_cfg = ''09:00'', hoursRequested = 8, blockDurationMinutes = 120,
                breakDurationMinutes = 15, calibration_cfg = None \<rparr>"

definition exBlocks :: "ScheduledBlock list" where
  "exBlocks =
     [\<lparr> blockNumber = 1, startTime = ''09:00'', endTime = ''11:00'', blockType = Deep_work,
        tasks = [\<lparr> task = mkTask ''a'' 30 5 3 Pending 0, sortOrder_blk = 0 \<rparr>,
                 \<lparr> task = mkTask ''c'' 90 7 5 Pending 2, sortOrder_blk = 1 \<rparr>],
        totalMinutes = 120 \<rparr>,
      \<lparr> blockNumber = 2, startTime = ''11:15'', endTime = ''13:15'', blockType = Deep_work,
        tasks = [\<lparr> task = mkTask ''d'' 45 1 1 Scheduled 3, sortOrder_blk = 0 \<rparr>,
                 \<lparr> task = mkTask ''b'' 60 2 3 Pending 1, sortOrder_blk = 1 \<rparr>],
        totalMinutes = 105 \<rparr>]"


definition exFeedback :: "FeedbackWithDifficulty list" where
  "exFeedback = [fb (Some Just_right) 7, fb (Some Too_easy) 2, fb (Some Just_right) 4, fb None 9]"

definition exPlans :: "DailyPlanSummary list" where
  "exPlans =
     [\<lparr> date = ''2024-01-01'', hoursRequested_plan = Some 6, energyRating = Some 4,
        eodReviewCompleted = True \<rparr>,
      \<lparr> date = ''2024-01-02'', hoursRequested_plan = None, energyRating = None,
        eodReviewCompleted = True \<rparr>]"

definition emptyStore :: "'a arrays" where
  "emptyStore = \<lparr> cells = (\<lambda>r. []), fresh = 0 \<rparr>"

definition storeWith :: "'a list \<Rightarrow> 'a arrays" where
  "storeWith xs = \<lparr> cells = (\<lambda>r. [])(0 := xs), fresh = 1 \<rparr>"

section \<open>Auxiliary notions for the proofs\<close>

abbreviation est :: "ScoredTask \<Rightarrow> int" where
  "est s \<equiv> estimatedMinutes (task_sc s)"

text \<open>The tasks selected by one iteration, before they are ordered by difficulty.\<close>

definition chosen :: "int \<Rightarrow> bool \<Rightarrow> ScoredTask list \<Rightarrow> ScoredTask list" where
  "chosen D l rem = fst (selectForBlock D (if l then byDifficulty rem else rem) [] 0)"

section \<open>Properties of the calibration engine\<close>





text \<open>
  Claim C1. With fewer than three feedback entries, whatever the entries and the daily
  plan summaries contain, \<open>computeCalibrationProfile\<close> returns the neutral profile:
  skill level 5, ideal difficulty 5.2, confidence 0, the number of entries as data points,
  no energy entry, 0 average hours and a streak of 0.
\<close>

theorem default_profile:
  assumes "length feedbackEntries < 3"
  shows "computeCalibrationProfile getDay getTime feedbackEntries dailyPlanData =
           \<lparr> skillLevel = 5, idealDifficulty = 5.2, confidence = 0,
             dataPoints = length feedbackEntries, energyByDay = Map.empty,
             avgTasksPerDay = 0, avgHoursPerDay = 0, currentStreak = 0 \<rparr>"
  using assms by (simp add: computeCalibrationProfile_def)

theorem default_profile_witness:
  "length [fb (Some Too_hard) 9, fb (Some Just_right) 1] < 3
   \<and> computeCalibrationProfile (\<lambda>d. 0) (\<lambda>d. 0) [fb (Some Too_hard) 9, fb (Some Just_right) 1]
        [\<lparr> date = ''2024-01-01'', hoursRequested_plan = Some 6, energyRating = Some 4,
           eodReviewCompleted = True \<rparr>]
      = \<lparr> skillLevel = 5, idealDifficulty = 5.2, confidence = 0, dataPoints = 2,
          energyByDay = Map.empty, avgTasksPerDay = 0, avgHoursPerDay = 0, currentStreak = 0 \<rparr>"
proof -
  have h: "length [fb (Some Too_hard) 9, fb (Some Just_right) 1] < 3" by simp
  from default_profile [OF h] show ?thesis by simp
qed



text \<open>
  Claim C7. For a confidence between 0 and 1, \<open>calculateChallengeSkillScore\<close> lies
  between 0 and 1 and equals the Gaussian term times the confidence plus the default score
  times one minus the confidence; the Gaussian term is 1 when the task difficulty is the
  ideal difficulty.
\<close>

theorem challenge_score_range:
  assumes "0 \<le> confidence profile" and "confidence profile \<le> 1"
  shows "0 \<le> calculateChallengeSkillScore d profile
         \<and> calculateChallengeSkillScore d profile \<le> 1
         \<and> calculateChallengeSkillScore d profile =
             exp (- (\<bar>d - idealDifficulty profile\<bar>\<^sup>2) / (2 * 2\<^sup>2)) * confidence profile
             + max 0 (1 - \<bar>d - 5\<bar> * 0.15) * (1 - confidence profile)
         \<and> (d = idealDifficulty profile \<longrightarrow> gaussianScore d profile = 1)"
proof -
  let ?g = "gaussianScore d profile" and ?f = "defaultScore d" and ?c = "confidence profile"
  have g: "0 \<le> ?g" "?g \<le> 1"
    by (simp_all add: gaussianScore_def Let_def)
  have f: "0 \<le> ?f" "?f \<le> 1"
    by (simp_all add: defaultScore_def)
  have lo: "0 \<le> ?g * ?c + ?f * (1 - ?c)"
    using g f assms by simp
  have "?g * ?c \<le> 1 * ?c"
    using g(2) assms(1) by (rule mult_right_mono)
  moreover have "?f * (1 - ?c) \<le> 1 * (1 - ?c)"
    using f(2) assms(2) by (intro mult_right_mono) simp_all
  ultimately have hi: "?g * ?c + ?f * (1 - ?c) \<le> 1" by simp
  have eq: "?g = exp (- (\<bar>d - idealDifficulty profile\<bar>\<^sup>2) / (2 * 2\<^sup>2))"
    by (simp add: gaussianScore_def Let_def power2_eq_square)
  show ?thesis
    using lo hi eq
    by (simp add: calculateChallengeSkillScore_def defaultScore_def gaussianScore_def)
qed

theorem challenge_score_range_witness:
  "0 \<le> confidence (exProfile 6 (1/2)) \<and> confidence (exProfile 6 (1/2)) \<le> 1
   \<and> calculateChallengeSkillScore 6 (exProfile 6 (1/2)) = 37 / 40"
proof -
  have h0: "0 \<le> confidence (exProfile 6 (1/2))" and h1: "confidence (exProfile 6 (1/2)) \<le> 1"
    by (simp_all add: exProfile_def)
  from challenge_score_range [OF h0 h1, of 6] show ?thesis
    by (simp add: exProfile_def)
qed

text \<open>
  Claim C8. In mode \<open>auto\<close>, \<open>resolveBlockDuration\<close> returns 120 without a calibration
  profile and with a profile of confidence 0, and 90 when the confidence is strictly
  between 0 and 0.3, for every custom duration and task list; in particular for the two
  scenarios of the specification.
\<close>

theorem auto_block_duration:
  "resolveBlockDuration today ''auto'' customDuration None pendingTasks = 120
   \<and> (confidence c0 = 0 \<longrightarrow>
        resolveBlockDuration today ''auto'' customDuration (Some c0) pendingTasks = 120)
   \<and> (0 < confidence c1 \<and> confidence c1 < 0.3 \<longrightarrow>
        resolveBlockDuration today ''auto'' customDuration (Some c1) pendingTasks = 90)
   \<and> resolveBlockDuration today ''auto'' 120 None [] = 120
   \<and> (confidence c2 = 0.2 \<longrightarrow> resolveBlockDuration today ''auto'' 120 (Some c2) [] = 90)"
  by (simp add: resolveBlockDuration_def autoDecideBlockDuration_def)

theorem auto_block_duration_witness:
  "confidence (exProfile 5.2 0) = 0
   \<and> resolveBlockDuration 3 ''auto'' 45 (Some (exProfile 5.2 0)) [] = 120
   \<and> 0 < confidence (exProfile 5.2 0.1) \<and> confidence (exProfile 5.2 0.1) < 0.3
   \<and> resolveBlockDuration 3 ''auto'' 45 (Some (exProfile 5.2 0.1)) [] = 90
   \<and> confidence (exProfile 5.2 0.2) = 0.2
   \<and> resolveBlockDuration 3 ''auto'' 120 (Some (exProfile 5.2 0.2)) [] = 90"
  using auto_block_duration [of 3 45 "[]" "exProfile 5.2 0" "exProfile 5.2 0.1" "exProfile 5.2 0.2"]
  by (simp add: exProfile_def)

section \<open>Properties of the schedule generator\<close>

lemma selectForBlock_sum_gen:
  "snd (selectForBlock D cs selected filled) + sum_list (map est selected)
     = filled + sum_list (map est (fst (selectForBlock D cs selected filled)))"
proof (induction cs arbitrary: selected filled)
  case Nil
  show ?case by simp
next
  case (Cons c cs)
  show ?case
    using Cons.IH [of "selected @ [c]" "filled + est c"] Cons.IH [of selected filled]
    by (simp add: Let_def)
qed

lemma selectForBlock_sum:
  "snd (selectForBlock D cs [] 0) = sum_list (map est (fst (selectForBlock D cs [] 0)))"
  using selectForBlock_sum_gen [of D cs "[]" 0] by simp

lemma selectForBlock_le:
  "(selected \<noteq> [] \<longrightarrow> filled \<le> D) \<Longrightarrow>
   fst (selectForBlock D cs selected filled) \<noteq> [] \<Longrightarrow>
   snd (selectForBlock D cs selected filled) \<le> D"
  by (induction cs arbitrary: selected filled) (simp_all add: Let_def split: if_splits)

lemma selectForBlock_empty_iff:
  "fst (selectForBlock D cs selected filled) = [] \<longleftrightarrow>
   selected = [] \<and> (\<forall>c\<in>set cs. \<not> filled + est c \<le> D)"
  by (induction cs arbitrary: selected filled) (auto simp add: Let_def)

lemma selectForBlock_subset:
  "x \<in> set (fst (selectForBlock D cs selected filled)) \<Longrightarrow> x \<in> set selected \<union> set cs"
proof (induction cs arbitrary: selected filled)
  case Nil
  then show ?case by simp
next
  case (Cons c cs)
  show ?case
  proof (cases "filled + est c \<le> D")
    case False
    with Cons.prems have "x \<in> set (fst (selectForBlock D cs selected filled))" by simp
    from Cons.IH [OF this] show ?thesis by auto
  next
    case fits: True
    show ?thesis
    proof (cases "real_of_int (filled + est c) \<ge> real_of_int D * 0.8")
      case True
      with fits Cons.prems show ?thesis by (auto simp add: Let_def)
    next
      case False
      with fits Cons.prems
      have "x \<in> set (fst (selectForBlock D cs (selected @ [c]) (filled + est c)))"
        by (simp add: Let_def)
      from Cons.IH [OF this] show ?thesis by auto
    qed
  qed
qed

lemma map_zip_upt_fst: "map (\<lambda>(x, i). f x i) (zip xs [0 ..< length xs]) = map (\<lambda>i. f (xs ! i) i) [0 ..< length xs]"
  by (rule nth_equalityI) simp_all

lemma fillBlock_tasks:
  "fst (snd (fillBlock D l rem)) =
     map (\<lambda>i. \<lparr> task = task_sc (byDifficulty (chosen D l rem) ! i), sortOrder_blk = i \<rparr>)
       [0 ..< length (chosen D l rem)]"
  by (simp add: fillBlock_def chosen_def Let_def map_zip_upt_fst byDifficulty_def)

lemma fillBlock_length: "length (fst (snd (fillBlock D l rem))) = length (chosen D l rem)"
  by (simp add: fillBlock_tasks)

lemma fillBlock_sortOrder:
  "map sortOrder_blk (fst (snd (fillBlock D l rem))) = [0 ..< length (fst (snd (fillBlock D l rem)))]"
  by (simp add: fillBlock_tasks o_def)

lemma fillBlock_task:
  "map task (fst (snd (fillBlock D l rem))) = map task_sc (byDifficulty (chosen D l rem))"
  by (rule nth_equalityI) (simp_all add: fillBlock_tasks byDifficulty_def)

lemma fillBlock_sorted:
  "sorted (map (\<lambda>st. difficulty (task st)) (fst (snd (fillBlock D l rem))))"
proof -
  have "map (\<lambda>st. difficulty (task st)) (fst (snd (fillBlock D l rem)))
          = map difficulty (map task (fst (snd (fillBlock D l rem))))"
    by (simp add: o_def)
  also have "\<dots> = map (\<lambda>s. difficulty (task_sc s)) (byDifficulty (chosen D l rem))"
    by (simp add: fillBlock_task o_def)
  finally show ?thesis by (simp add: byDifficulty_def)
qed

lemma sum_list_insort_key:
  "sum_list (map f (insort_key g x xs)) = (f x :: int) + sum_list (map f xs)"
  by (induction xs) simp_all

lemma sum_list_sort_key: "sum_list (map f (sort_key g xs)) = (sum_list (map f xs) :: int)"
  by (induction xs) (simp_all add: sum_list_insort_key)

lemma fillBlock_total:
  "snd (snd (fillBlock D l rem))
     = sum_list (map (\<lambda>st. estimatedMinutes (task st)) (fst (snd (fillBlock D l rem))))"
proof -
  have "map (\<lambda>st. estimatedMinutes (task st)) (fst (snd (fillBlock D l rem)))
          = map estimatedMinutes (map task (fst (snd (fillBlock D l rem))))"
    by (simp add: o_def)
  also have "\<dots> = map est (byDifficulty (chosen D l rem))"
    by (simp add: fillBlock_task o_def)
  finally have "sum_list (map (\<lambda>st. estimatedMinutes (task st)) (fst (snd (fillBlock D l rem))))
                  = sum_list (map est (chosen D l rem))"
    by (simp add: byDifficulty_def sum_list_sort_key)
  moreover have "snd (snd (fillBlock D l rem)) = sum_list (map est (chosen D l rem))"
    by (simp add: fillBlock_def chosen_def Let_def selectForBlock_sum)
  ultimately show ?thesis by simp
qed

lemma fillBlock_le:
  assumes "fst (snd (fillBlock D l rem)) \<noteq> []"
  shows "snd (snd (fillBlock D l rem)) \<le> D"
proof -
  from assms have "chosen D l rem \<noteq> []"
    using fillBlock_length [of D l rem] by auto
  then have "snd (selectForBlock D (if l then byDifficulty rem else rem) [] 0) \<le> D"
    unfolding chosen_def by (intro selectForBlock_le) simp_all
  then show ?thesis by (simp add: fillBlock_def Let_def)
qed

lemma chosen_empty_iff: "chosen D l rem = [] \<longleftrightarrow> (\<forall>s\<in>set rem. \<not> est s \<le> D)"
  by (simp add: chosen_def selectForBlock_empty_iff byDifficulty_def)

lemma fillBlock_empty_iff:
  "fst (snd (fillBlock D l rem)) = [] \<longleftrightarrow> (\<forall>s\<in>set rem. \<not> est s \<le> D)"
  using fillBlock_length [of D l rem] chosen_empty_iff [of D l rem] by auto

lemma fillBlock_rest_unchanged:
  assumes "fst (snd (fillBlock D l rem)) = []"
  shows "fst (fillBlock D l rem) = rem"
proof -
  from assms have "chosen D l rem = []"
    using fillBlock_length [of D l rem] by simp
  then show ?thesis by (simp add: fillBlock_def chosen_def Let_def)
qed

lemma fillBlock_rest_subset: "set (fst (fillBlock D l rem)) \<subseteq> set rem"
  by (auto simp add: fillBlock_def Let_def)

lemma chosen_subset: "set (chosen D l rem) \<subseteq> set rem"
  using selectForBlock_subset [of _ D "if l then byDifficulty rem else rem" "[]" 0]
  by (auto simp add: chosen_def byDifficulty_def split: if_splits)

lemma fillBlock_task_subset:
  "task ` set (fst (snd (fillBlock D l rem))) \<subseteq> task_sc ` set rem"
proof -
  have "task ` set (fst (snd (fillBlock D l rem))) = set (map task (fst (snd (fillBlock D l rem))))"
    by simp
  also have "\<dots> = task_sc ` set (chosen D l rem)"
    by (simp add: fillBlock_task byDifficulty_def)
  finally show ?thesis using chosen_subset [of D l rem] by auto
qed

lemma fillBlock_rest_shorter:
  assumes "fst (snd (fillBlock D l rem)) \<noteq> []"
  shows "length (fst (fillBlock D l rem)) < length rem"
proof -
  from assms have "chosen D l rem \<noteq> []"
    using fillBlock_length [of D l rem] by auto
  then obtain s where s: "s \<in> set (chosen D l rem)" by (cases "chosen D l rem") auto
  with chosen_subset have "s \<in> set rem" by blast
  moreover have "fst (fillBlock D l rem)
      = filter (\<lambda>t. task_id (task_sc t) \<notin> (\<lambda>s. task_id (task_sc s)) ` set (chosen D l rem)) rem"
    by (simp add: fillBlock_def chosen_def Let_def)
  ultimately show ?thesis
    using s by (auto intro!: length_filter_less [of s])
qed

lemma scheduleLoop_rule:
  assumes run: "scheduleLoop bound D B i rem t blocks = Some res"
    and init: "I i rem blocks"
    and skip: "\<And>i rem blocks. I i rem blocks \<Longrightarrow> belowBound i bound \<Longrightarrow> rem \<noteq> [] \<Longrightarrow>
          fst (snd (fillBlock D (isLast i bound) rem)) = [] \<Longrightarrow>
          I (i + 1) (fst (fillBlock D (isLast i bound) rem)) blocks"
    and emit: "\<And>i rem blocks s e. I i rem blocks \<Longrightarrow> belowBound i bound \<Longrightarrow> rem \<noteq> [] \<Longrightarrow>
          fst (snd (fillBlock D (isLast i bound) rem)) \<noteq> [] \<Longrightarrow>
          I (i + 1) (fst (fillBlock D (isLast i bound) rem))
            (blocks @
             [\<lparr> blockNumber = i + 1, startTime = s, endTime = e,
                blockType = (if isLast i bound then Shallow_work else Deep_work),
                tasks = fst (snd (fillBlock D (isLast i bound) rem)),
                totalMinutes = snd (snd (fillBlock D (isLast i bound) rem)) \<rparr>])"
  shows "\<exists>j rem'. I j rem' res \<and> \<not> (belowBound j bound \<and> rem' \<noteq> [])"
proof -
  let ?Q = "\<lambda>out. \<exists>j rem'. I j rem' out \<and> \<not> (belowBound j bound \<and> rem' \<noteq> [])"
  let ?P = "\<lambda>bnd dur (brk::int) k rs (tm::int option) bs out.
              bnd = bound \<longrightarrow> dur = D \<longrightarrow> I k rs bs \<longrightarrow> ?Q out"
  have "?P bound D B i rem t blocks res"
  proof (rule scheduleLoop.raw_induct [where P = ?P, OF _ run], goal_cases)
    case (1 loop bound' D' B' i rem t blocks res)
    show ?case
    proof (intro impI)
      assume b: "bound' = bound" and d: "D' = D" and inv: "I i rem blocks"
      show "?Q res"
      proof (cases "belowBound i bound \<and> rem \<noteq> []")
        case False
        with 1(2) b have "res = blocks" by (auto split: if_splits)
        with inv False show ?thesis by blast
      next
        case True
        show ?thesis
        proof (cases "fst (snd (fillBlock D (isLast i bound) rem)) = []")
          case e: True
          from 1(2) True e b d
          have "loop bound D B' (i + 1) (fst (fillBlock D (isLast i bound) rem)) t blocks = Some res"
            by (simp add: Let_def)
          from 1(1) [OF this] skip [OF inv _ _ e] True show ?thesis by simp
        next
          case ne: False
          let ?blk = "\<lparr> blockNumber = i + 1, startTime = formatTime t,
                endTime = formatTime (addMinutes t D),
                blockType = (if isLast i bound then Shallow_work else Deep_work),
                tasks = fst (snd (fillBlock D (isLast i bound) rem)),
                totalMinutes = snd (snd (fillBlock D (isLast i bound) rem)) \<rparr>"
          from 1(2) True ne b d
          have "loop bound D B' (i + 1) (fst (fillBlock D (isLast i bound) rem))
                  (addMinutes (addMinutes t D) B') (blocks @ [?blk]) = Some res"
            by (simp add: Let_def)
          from 1(1) [OF this] emit [OF inv _ _ ne] True show ?thesis by simp
        qed
      qed
    qed
  qed
  with init show ?thesis by blast
qed

lemma scheduleLoop_blocks:
  assumes run: "scheduleLoop bound D B i rem t blocks = Some res"
    and old: "\<forall>b\<in>set blocks. G b"
    and new: "\<And>i rem s e. belowBound i bound \<Longrightarrow> rem \<noteq> [] \<Longrightarrow>
          fst (snd (fillBlock D (isLast i bound) rem)) \<noteq> [] \<Longrightarrow>
          G \<lparr> blockNumber = i + 1, startTime = s, endTime = e,
              blockType = (if isLast i bound then Shallow_work else Deep_work),
              tasks = fst (snd (fillBlock D (isLast i bound) rem)),
              totalMinutes = snd (snd (fillBlock D (isLast i bound) rem)) \<rparr>"
  shows "\<forall>b\<in>set res. G b"
proof -
  let ?I = "\<lambda>(i::nat) (rem::ScoredTask list) blocks. \<forall>b\<in>set blocks. G b"
  have "\<exists>j rem'. ?I j rem' res \<and> \<not> (belowBound j bound \<and> rem' \<noteq> [])"
  proof (rule scheduleLoop_rule [OF run, where I = ?I], goal_cases)
    case 1
    show ?case by (rule old)
  next
    case 2
    then show ?case by simp
  next
    case (3 i rem blocks s e)
    from 3(1) new [OF 3(2,3,4)] show ?case by simp
  qed
  then show ?thesis by blast
qed

text \<open>
  When does the loop return? It does for a bounded number of blocks, for NaN, and whenever
  every remaining task fits into a block. With an unbounded number of blocks (the sum of
  block and break duration is 0) and remaining tasks of which none fits, it runs forever.
\<close>

lemma scheduleLoop_returns_bounded:
  "\<exists>res. scheduleLoop (Blocks n) D B i rem t blocks = Some res"
proof (induction "nat (n - int i)" arbitrary: i rem t blocks)
  case 0
  then have "\<not> belowBound i (Blocks n)" by simp
  then show ?case by (subst scheduleLoop.simps) simp
next
  case (Suc k)
  then have k: "k = nat (n - int (Suc i))" by simp
  show ?case
    by (subst scheduleLoop.simps) (simp add: Let_def Suc.hyps(1) [OF k])
qed

lemma scheduleLoop_returns_nan:
  "scheduleLoop NotANumber D B i rem t blocks = Some blocks"
  by (subst scheduleLoop.simps) simp

lemma scheduleLoop_diverges:
  assumes ne: "rem \<noteq> []" and big: "\<forall>s\<in>set rem. D < est s"
  shows "scheduleLoop Unbounded D B i rem t blocks = None"
proof (cases "scheduleLoop Unbounded D B i rem t blocks")
  case None
  then show ?thesis .
next
  case (Some res)
  let ?I = "\<lambda>(i::nat) (rem::ScoredTask list) (blocks::ScheduledBlock list).
              rem \<noteq> [] \<and> (\<forall>s\<in>set rem. \<not> est s \<le> D)"
  have "\<exists>j rem'. ?I j rem' res \<and> \<not> (belowBound j Unbounded \<and> rem' \<noteq> [])"
  proof (rule scheduleLoop_rule [OF Some, where I = ?I], goal_cases)
    case 1
    from ne big show ?case by auto
  next
    case (2 i rem blocks)
    from 2(4) have "fst (fillBlock D (isLast i Unbounded) rem) = rem"
      by (rule fillBlock_rest_unchanged)
    with 2(1) show ?case by simp
  next
    case (3 i rem blocks s e)
    from 3(1,4) show ?case by (simp add: fillBlock_empty_iff)
  qed
  then show ?thesis by simp
qed

lemma scheduleLoop_returns_fitting:
  assumes "\<forall>s\<in>set rem. est s \<le> D"
  shows "\<exists>res. scheduleLoop bound D B i rem t blocks = Some res"
  using assms
proof (induction "length rem" arbitrary: rem i t blocks rule: less_induct)
  case less
  show ?case
  proof (cases "belowBound i bound \<and> rem \<noteq> []")
    case False
    then show ?thesis by (subst scheduleLoop.simps) auto
  next
    case True
    let ?g = "fillBlock D (isLast i bound) rem"
    from True less.prems have ne: "fst (snd ?g) \<noteq> []"
      by (cases rem) (auto simp add: fillBlock_empty_iff)
    from fillBlock_rest_shorter [OF ne] have shorter: "length (fst ?g) < length rem" .
    from fillBlock_rest_subset [of D "isLast i bound" rem] less.prems
    have fit: "\<forall>s\<in>set (fst ?g). est s \<le> D" by blast
    from less.hyps [OF shorter fit] True ne show ?thesis
      by (subst scheduleLoop.simps) (simp add: Let_def)
  qed
qed

lemma generateDailySchedule_returns:
  assumes "effectiveBlocks config \<noteq> Unbounded"
  shows "\<exists>blocks. generateDailySchedule pendingTasks config = Some blocks"
proof (cases "effectiveBlocks config")
  case (Blocks n)
  then show ?thesis
    using scheduleLoop_returns_bounded by (simp add: generateDailySchedule_def)
next
  case Unbounded
  with assms show ?thesis by simp
next
  case NotANumber
  then show ?thesis
    by (simp add: generateDailySchedule_def scheduleLoop_returns_nan)
qed

lemma effectiveBlocks_bounded:
  "blockDurationMinutes config + breakDurationMinutes config \<noteq> 0 \<Longrightarrow>
   effectiveBlocks config \<noteq> Unbounded"
  by (simp add: effectiveBlocks_def Let_def)

lemmas eval_defs =
  generateDailySchedule_def effectiveBlocks_def scoredTasks_def mkTask_def isActive_def
  calculateTaskScore_def parseTime_def digitValue_def fillBlock_def byDifficulty_def
  formatTime_def jsRem_def intToString_def padStart2_def addMinutes_def Let_def

lemma exTasks_schedule: "generateDailySchedule exTasks exConfig = Some exBlocks"
  apply (simp add: exTasks_def exConfig_def exBlocks_def eval_defs)
  apply (subst scheduleLoop.simps, simp add: eval_defs)
  apply (subst scheduleLoop.simps, simp add: eval_defs)
  apply (subst scheduleLoop.simps, simp add: eval_defs)
  apply (subst scheduleLoop.simps, simp add: eval_defs)
  done

lemma generateDailySchedule_blocks:
  assumes run: "generateDailySchedule pendingTasks config = Some blocks"
    and new: "\<And>i rem s e. rem \<noteq> [] \<Longrightarrow>
          fst (snd (fillBlock (blockDurationMinutes config) (isLast i (effectiveBlocks config)) rem)) \<noteq> [] \<Longrightarrow>
          G \<lparr> blockNumber = i + 1, startTime = s, endTime = e,
              blockType = (if isLast i (effectiveBlocks config) then Shallow_work else Deep_work),
              tasks = fst (snd (fillBlock (blockDurationMinutes config)
                                  (isLast i (effectiveBlocks config)) rem)),
              totalMinutes = snd (snd (fillBlock (blockDurationMinutes config)
                                         (isLast i (effectiveBlocks config)) rem)) \<rparr>"
  shows "\<forall>b\<in>set blocks. G b"
proof (cases "length pendingTasks = 0")
  case True
  with run show ?thesis by (simp add: generateDailySchedule_def)
next
  case False
  with run have "scheduleLoop (effectiveBlocks config) (blockDurationMinutes config)
      (breakDurationMinutes config) 0 (scoredTasks pendingTasks (calibration_cfg config))
      (parseTime (startTime_cfg config)) [] = Some blocks"
    by (simp add: generateDailySchedule_def)
  then show ?thesis
  proof (rule scheduleLoop_blocks, goal_cases)
    case 1
    show ?case by simp
  next
    case (2 i rem s e)
    from 2(2,3) show ?case by (rule new)
  qed
qed



text \<open>
  Claim C4. In every block that \<open>generateDailySchedule\<close> returns, the positions assigned
  to the tasks are 0, 1, ..., n - 1 in order and the difficulties do not decrease along
  them.
\<close>

theorem lower_the_hurdle:
  assumes run: "generateDailySchedule pendingTasks config = Some blocks"
    and b: "b \<in> set blocks"
  shows "map sortOrder_blk (tasks b) = [0 ..< length (tasks b)]
         \<and> sorted (map (\<lambda>st. difficulty (task st)) (tasks b))
         \<and> (\<forall>x\<in>set (tasks b). \<forall>y\<in>set (tasks b).
               sortOrder_blk x \<le> sortOrder_blk y \<longrightarrow> difficulty (task x) \<le> difficulty (task y))"
proof -
  let ?G = "\<lambda>b. map sortOrder_blk (tasks b) = [0 ..< length (tasks b)]
                \<and> sorted (map (\<lambda>st. difficulty (task st)) (tasks b))"
  have "\<forall>b\<in>set blocks. ?G b"
    by (rule generateDailySchedule_blocks [OF run]) (simp add: fillBlock_sortOrder fillBlock_sorted)
  with b have ord: "map sortOrder_blk (tasks b) = [0 ..< length (tasks b)]"
    and srt: "sorted (map (\<lambda>st. difficulty (task st)) (tasks b))" by auto
  have "difficulty (task x) \<le> difficulty (task y)"
    if x: "x \<in> set (tasks b)" and y: "y \<in> set (tasks b)"
      and le: "sortOrder_blk x \<le> sortOrder_blk y" for x y
  proof -
    from x obtain i where i: "i < length (tasks b)" "tasks b ! i = x"
      by (auto simp add: in_set_conv_nth)
    from y obtain j where j: "j < length (tasks b)" "tasks b ! j = y"
      by (auto simp add: in_set_conv_nth)
    from i have "sortOrder_blk x = map sortOrder_blk (tasks b) ! i" by simp
    with ord i have xi: "sortOrder_blk x = i" by simp
    from j have "sortOrder_blk y = map sortOrder_blk (tasks b) ! j" by simp
    with ord j have yj: "sortOrder_blk y = j" by simp
    from le xi yj have "i \<le> j" by simp
    with srt j have "map (\<lambda>st. difficulty (task st)) (tasks b) ! i
                      \<le> map (\<lambda>st. difficulty (task st)) (tasks b) ! j"
      by (intro sorted_nth_mono) simp_all
    with i j show ?thesis by simp
  qed
  with ord srt show ?thesis by blast
qed

theorem lower_the_hurdle_witness:
  "generateDailySchedule exTasks exConfig = Some exBlocks
   \<and> exBlocks ! 1 \<in> set exBlocks
   \<and> map sortOrder_blk (tasks (exBlocks ! 1)) = [0, 1]
   \<and> map (\<lambda>st. difficulty (task st)) (tasks (exBlocks ! 1)) = [1, 2]
   \<and> sorted (map (\<lambda>st. difficulty (task st)) (tasks (exBlocks ! 1)))"
proof -
  have b: "exBlocks ! 1 \<in> set exBlocks" by (simp add: exBlocks_def)
  from lower_the_hurdle [OF exTasks_schedule b] exTasks_schedule b show ?thesis
    by (simp add: exBlocks_def mkTask_def)
qed

text \<open>
  Claim C5. In every returned block, \<open>totalMinutes\<close> is the sum of the estimated minutes
  of the block's tasks, and this sum does not exceed \<open>blockDurationMinutes\<close>. (Positive
  estimates are not needed for this.)
\<close>

theorem block_capacity:
  assumes run: "generateDailySchedule pendingTasks config = Some blocks"
    and b: "b \<in> set blocks"
  shows "totalMinutes b = sum_list (map (\<lambda>st. estimatedMinutes (task st)) (tasks b))
         \<and> sum_list (map (\<lambda>st. estimatedMinutes (task st)) (tasks b))
             \<le> blockDurationMinutes config"
proof -
  let ?G = "\<lambda>b. totalMinutes b = sum_list (map (\<lambda>st. estimatedMinutes (task st)) (tasks b))
                \<and> totalMinutes b \<le> blockDurationMinutes config"
  have "\<forall>b\<in>set blocks. ?G b"
  proof (rule generateDailySchedule_blocks [OF run], goal_cases)
    case (1 i rem s e)
    from fillBlock_le [OF 1(2)] fillBlock_total show ?case by simp
  qed
  with b show ?thesis by auto
qed

theorem block_capacity_witness:
  "generateDailySchedule exTasks exConfig = Some exBlocks
   \<and> exBlocks ! 1 \<in> set exBlocks
   \<and> totalMinutes (exBlocks ! 1) = 105
   \<and> sum_list (map (\<lambda>st. estimatedMinutes (task st)) (tasks (exBlocks ! 1))) = 105
   \<and> sum_list (map (\<lambda>st. estimatedMinutes (task st)) (tasks (exBlocks ! 1)))
       \<le> blockDurationMinutes exConfig"
proof -
  have b: "exBlocks ! 1 \<in> set exBlocks" by (simp add: exBlocks_def)
  from block_capacity [OF exTasks_schedule b] exTasks_schedule b show ?thesis
    by (simp add: exBlocks_def mkTask_def)
qed

lemma scheduleLoop_numbers:
  assumes run: "scheduleLoop bound D B 0 rem t [] = Some res"
  shows "map blockNumber res = [1 ..< length res + 1]"
proof -
  let ?I = "\<lambda>i rem blocks. map blockNumber blocks = [1 ..< length blocks + 1]
              \<and> (length blocks = i \<or> (\<forall>s\<in>set rem. \<not> est s \<le> D))"
  have "\<exists>j rem'. ?I j rem' res \<and> \<not> (belowBound j bound \<and> rem' \<noteq> [])"
  proof (rule scheduleLoop_rule [OF run, where I = ?I], goal_cases)
    case 1
    show ?case by simp
  next
    case (2 i rem blocks)
    from 2(4) have "\<forall>s\<in>set rem. \<not> est s \<le> D" by (simp add: fillBlock_empty_iff)
    with fillBlock_rest_subset [of D "isLast i bound" rem]
    have "\<forall>s\<in>set (fst (fillBlock D (isLast i bound) rem)). \<not> est s \<le> D" by blast
    with 2(1) show ?case by simp
  next
    case (3 i rem blocks s e)
    from 3(4) have "\<not> (\<forall>s\<in>set rem. \<not> est s \<le> D)" by (simp add: fillBlock_empty_iff)
    with 3(1) have "length blocks = i" by blast
    with 3(1) show ?case by simp
  qed
  then show ?thesis by blast
qed

text \<open>
  Claim C10. The block numbers of the returned blocks are 1, 2, ..., k in order. The
  reason is in the second part: an iteration selects no task exactly when no remaining
  task fits into a block, it then leaves the remaining tasks as they are, and so no later
  iteration selects a task either.
\<close>

theorem block_numbers_consecutive:
  assumes run: "generateDailySchedule pendingTasks config = Some blocks"
  shows "map blockNumber blocks = [1 ..< length blocks + 1]
         \<and> (\<forall>rem l. fst (snd (fillBlock (blockDurationMinutes config) l rem)) = [] \<longleftrightarrow>
               (\<forall>s\<in>set rem. blockDurationMinutes config < est s))
         \<and> (\<forall>rem l l'. fst (snd (fillBlock (blockDurationMinutes config) l rem)) = [] \<longrightarrow>
               fst (fillBlock (blockDurationMinutes config) l rem) = rem
               \<and> fst (snd (fillBlock (blockDurationMinutes config) l' rem)) = [])"
proof -
  have numbers: "map blockNumber blocks = [1 ..< length blocks + 1]"
  proof (cases "length pendingTasks = 0")
    case True
    with run show ?thesis by (simp add: generateDailySchedule_def)
  next
    case False
    with run have "scheduleLoop (effectiveBlocks config) (blockDurationMinutes config)
        (breakDurationMinutes config) 0 (scoredTasks pendingTasks (calibration_cfg config))
        (parseTime (startTime_cfg config)) [] = Some blocks"
      by (simp add: generateDailySchedule_def)
    then show ?thesis by (rule scheduleLoop_numbers)
  qed
  have fits: "fst (snd (fillBlock (blockDurationMinutes config) l rem)) = [] \<longleftrightarrow>
               (\<forall>s\<in>set rem. blockDurationMinutes config < est s)" for rem l
    by (auto simp add: fillBlock_empty_iff)
  have stays: "fst (fillBlock (blockDurationMinutes config) l rem) = rem
               \<and> fst (snd (fillBlock (blockDurationMinutes config) l' rem)) = []"
    if "fst (snd (fillBlock (blockDurationMinutes config) l rem)) = []" for rem l l'
    using that fillBlock_rest_unchanged [OF that] by (simp add: fillBlock_empty_iff)
  from numbers fits stays show ?thesis by blast
qed

theorem block_numbers_consecutive_witness:
  "generateDailySchedule exTasks exConfig = Some exBlocks
   \<and> map blockNumber exBlocks = [1, 2]
   \<and> fst (snd (fillBlock (blockDurationMinutes exConfig) True
                 [\<lparr> task_sc = mkTask ''e'' 500 1 1 Pending 4, score = 0.436 \<rparr>])) = []
   \<and> fst (fillBlock (blockDurationMinutes exConfig) True
            [\<lparr> task_sc = mkTask ''e'' 500 1 1 Pending 4, score = 0.436 \<rparr>])
       = [\<lparr> task_sc = mkTask ''e'' 500 1 1 Pending 4, score = 0.436 \<rparr>]
   \<and> fst (snd (fillBlock (blockDurationMinutes exConfig) False
                 [\<lparr> task_sc = mkTask ''e'' 500 1 1 Pending 4, score = 0.436 \<rparr>])) = []"
proof -
  have e: "fst (snd (fillBlock (blockDurationMinutes exConfig) True
                 [\<lparr> task_sc = mkTask ''e'' 500 1 1 Pending 4, score = 0.436 \<rparr>])) = []"
    by (simp add: exConfig_def mkTask_def fillBlock_def byDifficulty_def)
  from block_numbers_consecutive [OF exTasks_schedule] exTasks_schedule e show ?thesis
    by (simp add: exBlocks_def)
qed






section \<open>The inputs are left unchanged\<close>

lemma keeps_refl: "keeps n h h"
  by (simp add: keeps_def)

lemma keeps_trans: "keeps n h h' \<Longrightarrow> keeps n h' h'' \<Longrightarrow> keeps n h h''"
  by (auto simp add: keeps_def)

lemma selectInto_eq:
  "selectInto D cs sel h filled =
     (h\<lparr>cells := (cells h)(sel := fst (selectForBlock D cs (cells h sel) filled))\<rparr>,
      snd (selectForBlock D cs (cells h sel) filled))"
  by (induction cs arbitrary: h filled) (simp_all add: Let_def pushTo_def)

lemma fillBlock_st_result:
  assumes "rem < fresh sh"
  shows "cells (snd (snd (snd (fillBlock_st D l rem sh)))) (fst (fillBlock_st D l rem sh))
           = fst (fillBlock D l (cells sh rem))
         \<and> fst (snd (fillBlock_st D l rem sh)) = fst (snd (fillBlock D l (cells sh rem)))
         \<and> fst (snd (snd (fillBlock_st D l rem sh))) = snd (snd (fillBlock D l (cells sh rem)))"
  using assms
  by (simp add: fillBlock_st_def fillBlock_def newArray_def sortInPlace_def selectInto_eq
        byDifficulty_def Let_def)

lemma fillBlock_st_keeps:
  assumes "rem < fresh sh" and "n \<le> fresh sh"
  shows "keeps n sh (snd (snd (snd (fillBlock_st D l rem sh))))
         \<and> fst (fillBlock_st D l rem sh) < fresh (snd (snd (snd (fillBlock_st D l rem sh))))"
  using assms
  by (simp add: fillBlock_st_def newArray_def sortInPlace_def selectInto_eq keeps_def Let_def)

lemma scheduleLoop_st_sound:
  assumes run: "scheduleLoop_st bound D B i rem t blocks sh = Some out"
    and ok: "rem < fresh sh" "n \<le> fresh sh"
  shows "keeps n sh (snd out) \<and> scheduleLoop bound D B i (cells sh rem) t blocks = Some (fst out)"
proof -
  let ?P = "\<lambda>bnd dur brk k r tm bs h out.
              r < fresh h \<longrightarrow> n \<le> fresh h \<longrightarrow>
              keeps n h (snd out) \<and> scheduleLoop bnd dur brk k (cells h r) tm bs = Some (fst out)"
  have "?P bound D B i rem t blocks sh out"
  proof (rule scheduleLoop_st.raw_induct [where P = ?P, OF _ run], goal_cases)
    case (1 loop bound D B i rem t blocks sh out)
    let ?f = "fillBlock_st D (isLast i bound) rem sh"
    let ?g = "fillBlock D (isLast i bound) (cells sh rem)"
    let ?blk = "\<lparr> blockNumber = i + 1, startTime = formatTime t,
                endTime = formatTime (addMinutes t D),
                blockType = (if isLast i bound then Shallow_work else Deep_work),
                tasks = fst (snd ?g), totalMinutes = snd (snd ?g) \<rparr>"
    show ?case
    proof (intro impI)
      assume r: "rem < fresh sh" and n: "n \<le> fresh sh"
      show "keeps n sh (snd out) \<and> scheduleLoop bound D B i (cells sh rem) t blocks = Some (fst out)"
      proof (cases "belowBound i bound \<and> cells sh rem \<noteq> []")
        case False
        with 1(2) have "out = (blocks, sh)" by (auto split: if_splits)
        moreover from False have "scheduleLoop bound D B i (cells sh rem) t blocks = Some blocks"
          by (subst scheduleLoop.simps) auto
        ultimately show ?thesis by (simp add: keeps_refl)
      next
        case True
        note res = fillBlock_st_result [OF r, of D "isLast i bound"]
        note kp = fillBlock_st_keeps [OF r n, of D "isLast i bound"]
        from kp n have n': "n \<le> fresh (snd (snd (snd ?f)))" by (simp add: keeps_def)
        show ?thesis
        proof (cases "fst (snd ?g) = []")
          case e: True
          from 1(2) True e res
          have "loop bound D B (i + 1) (fst ?f) t blocks (snd (snd (snd ?f))) = Some out"
            by (simp add: Let_def)
          from 1(1) [OF this] kp n' res
          have "keeps n (snd (snd (snd ?f))) (snd out)"
            and "scheduleLoop bound D B (i + 1) (fst ?g) t blocks = Some (fst out)"
            by simp_all
          moreover from True e
          have "scheduleLoop bound D B i (cells sh rem) t blocks
                  = scheduleLoop bound D B (i + 1) (fst ?g) t blocks"
            by (subst scheduleLoop.simps) (simp add: Let_def)
          ultimately show ?thesis using kp keeps_trans by metis
        next
          case ne: False
          from 1(2) True ne res
          have "loop bound D B (i + 1) (fst ?f) (addMinutes (addMinutes t D) B)
                  (blocks @ [?blk]) (snd (snd (snd ?f))) = Some out"
            by (simp add: Let_def)
          from 1(1) [OF this] kp n' res
          have "keeps n (snd (snd (snd ?f))) (snd out)"
            and "scheduleLoop bound D B (i + 1) (fst ?g) (addMinutes (addMinutes t D) B)
                   (blocks @ [?blk]) = Some (fst out)"
            by simp_all
          moreover from True ne
          have "scheduleLoop bound D B i (cells sh rem) t blocks
                  = scheduleLoop bound D B (i + 1) (fst ?g) (addMinutes (addMinutes t D) B)
                      (blocks @ [?blk])"
            by (subst scheduleLoop.simps) (simp add: Let_def)
          ultimately show ?thesis using kp keeps_trans by metis
        qed
      qed
    qed
  qed
  with ok show ?thesis by blast
qed

lemma scheduleLoop_st_complete:
  assumes run: "scheduleLoop bound D B i rs t blocks = Some res"
    and ok: "rem < fresh sh" "cells sh rem = rs"
  shows "\<exists>sh'. scheduleLoop_st bound D B i rem t blocks sh = Some (res, sh')"
proof -
  let ?P = "\<lambda>bnd dur brk k xs tm bs out.
              \<forall>r h. r < fresh h \<longrightarrow> cells h r = xs \<longrightarrow>
                (\<exists>h'. scheduleLoop_st bnd dur brk k r tm bs h = Some (out, h'))"
  have "?P bound D B i rs t blocks res"
  proof (rule scheduleLoop.raw_induct [where P = ?P, OF _ run], goal_cases)
    case (1 loop bound D B i rs t blocks res)
    show ?case
    proof (intro allI impI)
      fix rem :: ref and sh :: "ScoredTask arrays"
      assume r: "rem < fresh sh" and c: "cells sh rem = rs"
      let ?f = "fillBlock_st D (isLast i bound) rem sh"
      let ?g = "fillBlock D (isLast i bound) rs"
      let ?blk = "\<lparr> blockNumber = i + 1, startTime = formatTime t,
                endTime = formatTime (addMinutes t D),
                blockType = (if isLast i bound then Shallow_work else Deep_work),
                tasks = fst (snd ?g), totalMinutes = snd (snd ?g) \<rparr>"
      note res = fillBlock_st_result [OF r, of D "isLast i bound", unfolded c]
      note kp = fillBlock_st_keeps [OF r order_refl, of D "isLast i bound"]
      show "\<exists>sh'. scheduleLoop_st bound D B i rem t blocks sh = Some (res, sh')"
      proof (cases "belowBound i bound \<and> rs \<noteq> []")
        case False
        with 1(2) have "res = blocks" by (auto split: if_splits)
        moreover from False c have "scheduleLoop_st bound D B i rem t blocks sh = Some (blocks, sh)"
          by (subst scheduleLoop_st.simps) auto
        ultimately show ?thesis by simp
      next
        case True
        show ?thesis
        proof (cases "fst (snd ?g) = []")
          case e: True
          from 1(2) True e have "loop bound D B (i + 1) (fst ?g) t blocks = Some res"
            by (simp add: Let_def)
          from 1(1) [OF this, rule_format, of "fst ?f" "snd (snd (snd ?f))"] kp res
          obtain sh' where "scheduleLoop_st bound D B (i + 1) (fst ?f) t blocks
                              (snd (snd (snd ?f))) = Some (res, sh')"
            by auto
          moreover from True e c res
          have "scheduleLoop_st bound D B i rem t blocks sh
                  = scheduleLoop_st bound D B (i + 1) (fst ?f) t blocks (snd (snd (snd ?f)))"
            by (subst scheduleLoop_st.simps) (simp add: Let_def)
          ultimately show ?thesis by simp
        next
          case ne: False
          from 1(2) True ne
          have "loop bound D B (i + 1) (fst ?g) (addMinutes (addMinutes t D) B)
                  (blocks @ [?blk]) = Some res"
            by (simp add: Let_def)
          from 1(1) [OF this, rule_format, of "fst ?f" "snd (snd (snd ?f))"] kp res
          obtain sh' where "scheduleLoop_st bound D B (i + 1) (fst ?f)
                              (addMinutes (addMinutes t D) B) (blocks @ [?blk])
                              (snd (snd (snd ?f))) = Some (res, sh')"
            by auto
          moreover from True ne c res
          have "scheduleLoop_st bound D B i rem t blocks sh
                  = scheduleLoop_st bound D B (i + 1) (fst ?f) (addMinutes (addMinutes t D) B)
                      (blocks @ [?blk]) (snd (snd (snd ?f)))"
            by (subst scheduleLoop_st.simps) (simp add: Let_def)
          ultimately show ?thesis by simp
        qed
      qed
    qed
  qed
  with ok show ?thesis by blast
qed

lemma rawSkillLevel_st_result:
  assumes "feedbackEntries < fresh fh"
  shows "rawSkillLevel_st feedbackEntries fh nh = (x, fh', nh') \<Longrightarrow>
         x = rawSkillLevel (cells fh feedbackEntries)
         \<and> cells fh' feedbackEntries = cells fh feedbackEntries
         \<and> keeps (fresh fh) fh fh' \<and> keeps (fresh nh) nh nh'"
  using assms
  by (auto simp add: rawSkillLevel_st_def rawSkillLevel_def newArray_def sortInPlace_def
        keeps_def Let_def split: if_splits)

lemma avgHours_st_result:
  "avgHours_st dailyPlanData ph = (x, ph') \<Longrightarrow>
   x = avgHours (cells ph dailyPlanData) \<and> keeps (fresh ph) ph ph'"
  by (auto simp add: avgHours_st_def avgHours_def newArray_def keeps_def Let_def)

lemma streakOf_st_result:
  "streakOf_st getTime dailyPlanData ph = (x, ph') \<Longrightarrow>
   x = streakOf getTime (cells ph dailyPlanData) \<and> keeps (fresh ph) ph ph'"
  by (auto simp add: streakOf_st_def streakOf_def newArray_def sortInPlace_def keeps_def Let_def)

lemma keeps_mono: "n \<le> m \<Longrightarrow> keeps m h h' \<Longrightarrow> keeps n h h'"
  by (simp add: keeps_def)

lemma computeCalibrationProfile_st_sound:
  assumes fe: "feedbackEntries < fresh fh" and dp: "dailyPlanData < fresh ph"
    and run: "computeCalibrationProfile_st getDay getTime feedbackEntries dailyPlanData fh nh ph
                = (profile, fh', nh', ph')"
  shows "profile = computeCalibrationProfile getDay getTime (cells fh feedbackEntries)
                     (cells ph dailyPlanData)
         \<and> keeps (fresh fh) fh fh' \<and> keeps (fresh nh) nh nh' \<and> keeps (fresh ph) ph ph'"
proof (cases "length (cells fh feedbackEntries) < 3")
  case True
  with run show ?thesis
    by (auto simp add: computeCalibrationProfile_st_def computeCalibrationProfile_def keeps_refl)
next
  case False
  obtain x fh1 nh1 where a: "rawSkillLevel_st feedbackEntries fh nh = (x, fh1, nh1)"
    by (cases "rawSkillLevel_st feedbackEntries fh nh") auto
  obtain y ph1 where b: "avgHours_st dailyPlanData ph = (y, ph1)"
    by (cases "avgHours_st dailyPlanData ph") auto
  obtain z ph2 where c: "streakOf_st getTime dailyPlanData ph1 = (z, ph2)"
    by (cases "streakOf_st getTime dailyPlanData ph1") auto
  note ra = rawSkillLevel_st_result [OF fe a]
  note rb = avgHours_st_result [OF b]
  note rc = streakOf_st_result [OF c]
  from rb dp have same: "cells ph1 dailyPlanData = cells ph dailyPlanData"
    and le: "fresh ph \<le> fresh ph1"
    by (simp_all add: keeps_def)
  from rc le have "keeps (fresh ph) ph1 ph2" by (blast intro: keeps_mono)
  with rb have kp: "keeps (fresh ph) ph ph2" by (blast intro: keeps_trans)
  from ra have x: "x = rawSkillLevel (cells fh feedbackEntries)"
    and len: "cells fh1 feedbackEntries = cells fh feedbackEntries"
    and kf: "keeps (fresh fh) fh fh1" and kn: "keeps (fresh nh) nh nh1"
    by simp_all
  from rb have y: "y = avgHours (cells ph dailyPlanData)" by simp
  from rc same have z: "z = streakOf getTime (cells ph dailyPlanData)" by simp
  from run False a b c
  have "(profile, fh', nh', ph') =
          (\<lparr> skillLevel = round1 (max 1 (min 10 x)),
             idealDifficulty = round1 (min 10 (max 1 (min 10 x) * 1.04)),
             confidence = round2 (min 1 (real (length (cells fh1 feedbackEntries)) / 33)),
             dataPoints = length (cells fh1 feedbackEntries),
             energyByDay = energyByDayAvg getDay (cells ph dailyPlanData),
             avgTasksPerDay = 0, avgHoursPerDay = round1 y, currentStreak = z \<rparr>,
           fh1, nh1, ph2)"
    by (auto simp add: computeCalibrationProfile_st_def Let_def)
  then have prof: "profile = \<lparr> skillLevel = round1 (max 1 (min 10 x)),
                   idealDifficulty = round1 (min 10 (max 1 (min 10 x) * 1.04)),
                   confidence = round2 (min 1 (real (length (cells fh1 feedbackEntries)) / 33)),
                   dataPoints = length (cells fh1 feedbackEntries),
                   energyByDay = energyByDayAvg getDay (cells ph dailyPlanData),
                   avgTasksPerDay = 0, avgHoursPerDay = round1 y, currentStreak = z \<rparr>"
    and heaps: "fh' = fh1" "nh' = nh1" "ph' = ph2"
    by auto
  have "profile = computeCalibrationProfile getDay getTime (cells fh feedbackEntries)
                    (cells ph dailyPlanData)"
    unfolding prof x y z len using False
    by (simp add: computeCalibrationProfile_def Let_def)
  with kf kn kp heaps show ?thesis by simp
qed

lemma scoredTasks_st_result:
  assumes "scoredTasks_st pendingTasks calibration th sh = (scored, th', sh')"
  shows "cells sh' scored = scoredTasks (cells th pendingTasks) calibration
         \<and> scored < fresh sh' \<and> keeps (fresh th) th th' \<and> keeps (fresh sh) sh sh'"
  using assms
  by (auto simp add: scoredTasks_st_def scoredTasks_def newArray_def sortInPlace_def keeps_def)

lemma generateDailySchedule_st_sound:
  assumes run: "generateDailySchedule_st pendingTasks config th sh = Some (blocks, th', sh')"
  shows "keeps (fresh th) th th' \<and> keeps (fresh sh) sh sh'
         \<and> generateDailySchedule (cells th pendingTasks) config = Some blocks"
proof (cases "length (cells th pendingTasks) = 0")
  case True
  with run show ?thesis
    by (auto simp add: generateDailySchedule_st_def generateDailySchedule_def keeps_refl)
next
  case False
  obtain scored th1 sh1
    where a: "scoredTasks_st pendingTasks (calibration_cfg config) th sh = (scored, th1, sh1)"
    by (cases "scoredTasks_st pendingTasks (calibration_cfg config) th sh") auto
  note ra = scoredTasks_st_result [OF a]
  let ?sh2 = "snd (newArray (cells sh1 scored) sh1)"
  let ?rem = "fst (newArray (cells sh1 scored) sh1)"
  from run False a
  have loop: "scheduleLoop_st (effectiveBlocks config) (blockDurationMinutes config)
                (breakDurationMinutes config) 0 ?rem (parseTime (startTime_cfg config)) [] ?sh2
              = Some (blocks, sh')" and th: "th' = th1"
    by (auto simp add: generateDailySchedule_st_def split: prod.splits)
  from ra have "fresh sh \<le> fresh sh1" by (simp add: keeps_def)
  then have rem: "?rem < fresh ?sh2" and cells: "cells ?sh2 ?rem = cells sh1 scored"
    and k2: "keeps (fresh sh) sh1 ?sh2"
    by (simp_all add: newArray_def keeps_def)
  from ra k2 have k02: "keeps (fresh sh) sh ?sh2" by (blast intro: keeps_trans)
  then have n: "fresh sh \<le> fresh ?sh2" by (simp add: keeps_def)
  from scheduleLoop_st_sound [OF loop rem n] cells ra
  have "keeps (fresh sh) ?sh2 sh'"
    and "scheduleLoop (effectiveBlocks config) (blockDurationMinutes config)
           (breakDurationMinutes config) 0
           (scoredTasks (cells th pendingTasks) (calibration_cfg config))
           (parseTime (startTime_cfg config)) [] = Some blocks"
    by simp_all
  with False k02 ra th show ?thesis
    by (auto simp add: generateDailySchedule_def intro: keeps_trans)
qed

lemma generateDailySchedule_st_complete:
  assumes run: "generateDailySchedule (cells th pendingTasks) config = Some blocks"
  shows "\<exists>th' sh'. generateDailySchedule_st pendingTasks config th sh = Some (blocks, th', sh')"
proof (cases "length (cells th pendingTasks) = 0")
  case True
  with run show ?thesis
    by (auto simp add: generateDailySchedule_st_def generateDailySchedule_def)
next
  case False
  obtain scored th1 sh1
    where a: "scoredTasks_st pendingTasks (calibration_cfg config) th sh = (scored, th1, sh1)"
    by (cases "scoredTasks_st pendingTasks (calibration_cfg config) th sh") auto
  note ra = scoredTasks_st_result [OF a]
  let ?sh2 = "snd (newArray (cells sh1 scored) sh1)"
  let ?rem = "fst (newArray (cells sh1 scored) sh1)"
  have rem: "?rem < fresh ?sh2"
    and cells: "cells ?sh2 ?rem = scoredTasks (cells th pendingTasks) (calibration_cfg config)"
    using ra by (simp_all add: newArray_def)
  from run False
  have "scheduleLoop (effectiveBlocks config) (blockDurationMinutes config)
           (breakDurationMinutes config) 0
           (scoredTasks (cells th pendingTasks) (calibration_cfg config))
           (parseTime (startTime_cfg config)) [] = Some blocks"
    by (simp add: generateDailySchedule_def)
  from scheduleLoop_st_complete [OF this rem cells]
  obtain sh' where "scheduleLoop_st (effectiveBlocks config) (blockDurationMinutes config)
                (breakDurationMinutes config) 0 ?rem (parseTime (startTime_cfg config)) [] ?sh2
              = Some (blocks, sh')" by blast
  with False a show ?thesis
    by (auto simp add: generateDailySchedule_st_def split: prod.splits)
qed

lemma scheduleLoop_tasks_from:
  assumes run: "scheduleLoop bound D B 0 rem t [] = Some res"
    and sub: "task_sc ` set rem \<subseteq> S"
  shows "\<forall>b\<in>set res. task ` set (tasks b) \<subseteq> S"
proof -
  let ?I = "\<lambda>(i::nat) (rem::ScoredTask list) (blocks::ScheduledBlock list).
              task_sc ` set rem \<subseteq> S \<and> (\<forall>b\<in>set blocks. task ` set (tasks b) \<subseteq> S)"
  have "\<exists>j rem'. ?I j rem' res \<and> \<not> (belowBound j bound \<and> rem' \<noteq> [])"
  proof (rule scheduleLoop_rule [OF run, where I = ?I], goal_cases)
    case 1
    from sub show ?case by simp
  next
    case (2 i rem blocks)
    from 2(1) have a: "task_sc ` set rem \<subseteq> S"
      and b: "\<forall>b\<in>set blocks. task ` set (tasks b) \<subseteq> S" by simp_all
    from a fillBlock_rest_subset [of D "isLast i bound" rem]
    have "task_sc ` set (fst (fillBlock D (isLast i bound) rem)) \<subseteq> S" by blast
    with b show ?case by simp
  next
    case (3 i rem blocks s e)
    from 3(1) have a: "task_sc ` set rem \<subseteq> S"
      and b: "\<forall>b\<in>set blocks. task ` set (tasks b) \<subseteq> S" by simp_all
    from a fillBlock_rest_subset [of D "isLast i bound" rem]
    have "task_sc ` set (fst (fillBlock D (isLast i bound) rem)) \<subseteq> S" by blast
    moreover from a fillBlock_task_subset [of D "isLast i bound" rem]
    have "task ` set (fst (snd (fillBlock D (isLast i bound) rem))) \<subseteq> S" by blast
    ultimately show ?case using b by simp
  qed
  then show ?thesis by blast
qed

lemma generateDailySchedule_tasks_from:
  assumes run: "generateDailySchedule pendingTasks config = Some blocks"
  shows "\<forall>b\<in>set blocks. task ` set (tasks b) \<subseteq> set pendingTasks"
proof (cases "length pendingTasks = 0")
  case True
  with run show ?thesis by (simp add: generateDailySchedule_def)
next
  case False
  with run have "scheduleLoop (effectiveBlocks config) (blockDurationMinutes config)
      (breakDurationMinutes config) 0 (scoredTasks pendingTasks (calibration_cfg config))
      (parseTime (startTime_cfg config)) [] = Some blocks"
    by (simp add: generateDailySchedule_def)
  moreover have "task_sc ` set (scoredTasks pendingTasks (calibration_cfg config))
                   \<subseteq> set pendingTasks"
    by (force simp add: scoredTasks_def)
  ultimately show ?thesis by (rule scheduleLoop_tasks_from)
qed

text \<open>
  Claim C9. \<open>generateDailySchedule\<close> and \<open>computeCalibrationProfile\<close>, run on arrays in
  a store, leave every array that exists before the call as it is, in particular the task
  list, the feedback entries and the daily plan summaries: every \<open>sort\<close> and \<open>push\<close>
  works on an array built during the call. The tasks in the returned blocks are tasks of
  the input list, and the results are those of the functions on lists.
\<close>

theorem inputs_unchanged:
  assumes pt: "pendingTasks < fresh th"
    and fe: "feedbackEntries < fresh fh" and dp: "dailyPlanData < fresh ph"
    and sched: "generateDailySchedule_st pendingTasks config th sh = Some (blocks, th', sh')"
    and calib: "computeCalibrationProfile_st getDay getTime feedbackEntries dailyPlanData fh nh ph
                  = (profile, fh', nh', ph')"
  shows "cells th' pendingTasks = cells th pendingTasks
         \<and> cells fh' feedbackEntries = cells fh feedbackEntries
         \<and> cells ph' dailyPlanData = cells ph dailyPlanData
         \<and> (\<forall>r < fresh th. cells th' r = cells th r)
         \<and> (\<forall>r < fresh sh. cells sh' r = cells sh r)
         \<and> (\<forall>r < fresh fh. cells fh' r = cells fh r)
         \<and> (\<forall>r < fresh nh. cells nh' r = cells nh r)
         \<and> (\<forall>r < fresh ph. cells ph' r = cells ph r)
         \<and> (\<forall>b\<in>set blocks. \<forall>st\<in>set (tasks b). task st \<in> set (cells th pendingTasks))
         \<and> generateDailySchedule (cells th pendingTasks) config = Some blocks
         \<and> computeCalibrationProfile getDay getTime (cells fh feedbackEntries)
              (cells ph dailyPlanData) = profile"
proof -
  from generateDailySchedule_st_sound [OF sched]
  have kt: "keeps (fresh th) th th'" and ks: "keeps (fresh sh) sh sh'"
    and pure: "generateDailySchedule (cells th pendingTasks) config = Some blocks"
    by simp_all
  from computeCalibrationProfile_st_sound [OF fe dp calib]
  have prof: "computeCalibrationProfile getDay getTime (cells fh feedbackEntries)
                (cells ph dailyPlanData) = profile"
    and kf: "keeps (fresh fh) fh fh'" and kn: "keeps (fresh nh) nh nh'"
    and kp: "keeps (fresh ph) ph ph'"
    by simp_all
  have t: "\<forall>r < fresh th. cells th' r = cells th r" using kt by (simp add: keeps_def)
  have s: "\<forall>r < fresh sh. cells sh' r = cells sh r" using ks by (simp add: keeps_def)
  have f: "\<forall>r < fresh fh. cells fh' r = cells fh r" using kf by (simp add: keeps_def)
  have n: "\<forall>r < fresh nh. cells nh' r = cells nh r" using kn by (simp add: keeps_def)
  have p: "\<forall>r < fresh ph. cells ph' r = cells ph r" using kp by (simp add: keeps_def)
  from generateDailySchedule_tasks_from [OF pure]
  have from_input: "\<forall>b\<in>set blocks. \<forall>st\<in>set (tasks b). task st \<in> set (cells th pendingTasks)"
    by blast
  from t pt have c1: "cells th' pendingTasks = cells th pendingTasks" by blast
  from f fe have c2: "cells fh' feedbackEntries = cells fh feedbackEntries" by blast
  from p dp have c3: "cells ph' dailyPlanData = cells ph dailyPlanData" by blast
  from c1 c2 c3 t s f n p from_input pure prof show ?thesis
    by - (intro conjI, assumption+)
qed

theorem inputs_unchanged_witness:
  "\<exists>th' sh' profile fh' nh' ph'.
     (0::nat) < fresh (storeWith exTasks) \<and> 0 < fresh (storeWith exFeedback)
     \<and> 0 < fresh (storeWith exPlans)
     \<and> generateDailySchedule_st 0 exConfig (storeWith exTasks) emptyStore
         = Some (exBlocks, th', sh')
     \<and> computeCalibrationProfile_st (\<lambda>d. 0) (\<lambda>d. 0) 0 0 (storeWith exFeedback) emptyStore
           (storeWith exPlans) = (profile, fh', nh', ph')
     \<and> cells th' 0 = exTasks \<and> cells fh' 0 = exFeedback \<and> cells ph' 0 = exPlans
     \<and> skillLevel profile = 5.5"
proof -
  have pt: "0 < fresh (storeWith exTasks)" and fe: "0 < fresh (storeWith exFeedback)"
    and dp: "0 < fresh (storeWith exPlans)"
    by (simp_all add: storeWith_def)
  have "generateDailySchedule (cells (storeWith exTasks) 0) exConfig = Some exBlocks"
    using exTasks_schedule by (simp add: storeWith_def)
  from generateDailySchedule_st_complete [OF this]
  obtain th' sh'
    where sched: "generateDailySchedule_st 0 exConfig (storeWith exTasks) emptyStore
                    = Some (exBlocks, th', sh')"
    by blast
  obtain profile fh' nh' ph'
    where calib: "computeCalibrationProfile_st (\<lambda>d. 0) (\<lambda>d. 0) 0 0 (storeWith exFeedback)
                    emptyStore (storeWith exPlans) = (profile, fh', nh', ph')"
    by (rule prod_cases4)
  from inputs_unchanged [OF pt fe dp sched calib]
  have "cells th' 0 = exTasks" and "cells fh' 0 = exFeedback" and "cells ph' 0 = exPlans"
    and "computeCalibrationProfile (\<lambda>d. 0) (\<lambda>d. 0) exFeedback exPlans = profile"
    by (simp_all add: storeWith_def)
  moreover have "skillLevel (computeCalibrationProfile (\<lambda>d. 0) (\<lambda>d. 0) exFeedback exPlans) = 5.5"
    by (simp add: exFeedback_def fb_def computeCalibrationProfile_def rawSkillLevel_def
          round1_def math_round_def)
  ultimately show ?thesis using pt fe dp sched calib by auto
qed

end
